theory Spec2Isabelle
  imports Main "HOL-Library.Sublist"
begin

section \<open>Python values used by benchapps.py\<close>

text \<open>
  The module is Python 2 code (\<^verbatim>\<open>StandardError\<close>, a \<^verbatim>\<open>filter\<close> whose result is
  tested for emptiness).  Strings are byte strings, modelled as \<^typ>\<open>string\<close>.  Every
  exception the modelled code can raise is a constructor of \<open>error\<close>; a function that can
  raise returns \<open>error + 'a\<close> with \<open>Inl\<close> for the exception.
\<close>

datatype error =
    AssertionError
  | ValueError string
  | OSError
  | IOError
  | UnboundLocalError
  | IndexError

subsection \<open>Module constants\<close>

definition RESDIR :: string where "RESDIR = ''results/''"
definition CLSDIR :: string where "CLSDIR = ''clusters/''"
definition ALGSDIR :: string where "ALGSDIR = ''algorithms/''"
definition MODDIR :: string where "MODDIR = ''mod/''"
definition NMIDIR :: string where "NMIDIR = ''nmi/''"
definition EXTERR :: string where "EXTERR = ''.err''"
definition EXTEXECTIME :: string where "EXTEXECTIME = ''.rcp''"
definition SEPINST :: char where "SEPINST = CHR ''^''"
definition SEPPARS :: char where "SEPPARS = CHR ''!''"
definition SEPPATHID :: char where "SEPPATHID = CHR ''#''"
definition PATHID_FILE :: char where "PATHID_FILE = CHR ''f''"

subsection \<open>String methods\<close>

text \<open>\<^verbatim>\<open>s.rfind(c)\<close> for a one-character \<open>c\<close>: the index of the last occurrence, or -1.\<close>

fun rfind :: "char \<Rightarrow> string \<Rightarrow> int" where
  "rfind c [] = -1"
| "rfind c (x # xs) =
     (let r = rfind c xs in if 0 \<le> r then r + 1 else if x = c then 0 else -1)"

text \<open>\<^verbatim>\<open>s.find(sub)\<close>: the index of the first occurrence of \<open>sub\<close>, or -1.\<close>

fun str_find :: "string \<Rightarrow> string \<Rightarrow> int" where
  "str_find sub [] = (if sub = [] then 0 else -1)"
| "str_find sub (x # xs) =
     (if prefix sub (x # xs) then 0
      else (let r = str_find sub xs in if 0 \<le> r then r + 1 else -1))"

definition endswith :: "string \<Rightarrow> string \<Rightarrow> bool" where
  "endswith s suf = (length suf \<le> length s \<and> drop (length s - length suf) s = suf)"

definition startswith :: "string \<Rightarrow> string \<Rightarrow> bool" where
  "startswith s pre = (take (length pre) s = pre)"

text \<open>\<^verbatim>\<open>s.rstrip(c)\<close> for a one-character \<open>c\<close>.\<close>

definition rstrip :: "char \<Rightarrow> string \<Rightarrow> string" where
  "rstrip c s = rev (dropWhile (\<lambda>x. x = c) (rev s))"

text \<open>
  \<^verbatim>\<open>s.replace(old, new)\<close>: every non-overlapping occurrence of \<open>old\<close>, scanning from the
  left.  For an empty \<open>old\<close> Python puts \<open>new\<close> before every character and at the end.
\<close>

function str_replace :: "string \<Rightarrow> string \<Rightarrow> string \<Rightarrow> string" where
  "str_replace old new s =
     (if old = [] then new @ concat (map (\<lambda>c. c # new) s)
      else if s = [] then []
      else if prefix old s then new @ str_replace old new (drop (length old) s)
      else hd s # str_replace old new (tl s))"
  by pat_completeness auto
termination
  by (relation "measure (\<lambda>(old, new, s). length s)") auto

declare str_replace.simps [simp del]

text \<open>\<^verbatim>\<open>sep.join(parts)\<close>.\<close>

fun join :: "string \<Rightarrow> string list \<Rightarrow> string" where
  "join sep [] = []"
| "join sep [p] = p"
| "join sep (p # q # ps) = p @ sep @ join sep (q # ps)"

text \<open>
  \<^verbatim>\<open>fmt.format(*args)\<close> for a format string whose only replacement fields are the
  auto-numbered \<^verbatim>\<open>{}\<close> (all format strings of the module are of this kind) and string
  arguments: each field takes the next argument, and a field with no argument left raises
  IndexError.  Surplus arguments are ignored.
\<close>

fun py_format :: "string \<Rightarrow> string list \<Rightarrow> error + string" where
  "py_format [] args = Inr []"
| "py_format [c] args = Inr [c]"
| "py_format (c # d # rest) args =
     (if c = CHR ''{'' \<and> d = CHR ''}'' then
        (case args of
           [] \<Rightarrow> Inl IndexError
         | a # as \<Rightarrow>
             (case py_format rest as of Inl e \<Rightarrow> Inl e | Inr r \<Rightarrow> Inr (a @ r)))
      else (case py_format (d # rest) args of Inl e \<Rightarrow> Inl e | Inr r \<Rightarrow> Inr (c # r)))"

subsection \<open>Integer validation\<close>

text \<open>
  \<^verbatim>\<open>int(s)\<close> of Python 2 for a byte string in base 10: optional white space, an optional
  sign, optional white space again, at least one decimal digit, optional white space.
  Anything else raises ValueError.  The message of the exception quotes the literal
  (its \<^verbatim>\<open>repr\<close>, written here for a literal that needs no escaping).
\<close>

definition isspace :: "char \<Rightarrow> bool" where
  "isspace c = (c \<in> set [CHR '' '', CHR 0x09, CHR 0x0A, CHR 0x0B, CHR 0x0C, CHR 0x0D])"

definition isdigit :: "char \<Rightarrow> bool" where
  "isdigit c = (c \<in> set ''0123456789'')"

definition digit_val :: "char \<Rightarrow> int" where
  "digit_val c = int (of_char c) - 48"

definition int_errmsg :: "string \<Rightarrow> string" where
  "int_errmsg s = ''invalid literal for int() with base 10: '' @ [CHR 0x27] @ s @ [CHR 0x27]"

definition py_int :: "string \<Rightarrow> error + int" where
  "py_int s =
     (let t = dropWhile isspace s;
          neg = (t \<noteq> [] \<and> hd t = CHR ''-'');
          u = (if t \<noteq> [] \<and> (hd t = CHR ''+'' \<or> hd t = CHR ''-'') then tl t else t);
          v = dropWhile isspace u;
          ds = takeWhile isdigit v;
          r = dropWhile isspace (dropWhile isdigit v)
      in if ds \<noteq> [] \<and> r = []
         then Inr ((if neg then - 1 else 1) * foldl (\<lambda>a c. 10 * a + digit_val c) 0 ds)
         else Inl (ValueError (int_errmsg s)))"

definition int_ok :: "string \<Rightarrow> bool" where
  "int_ok s = (case py_int s of Inl _ \<Rightarrow> False | Inr _ \<Rightarrow> True)"

subsection \<open>os.path\<close>

text \<open>\<^verbatim>\<open>posixpath.split\<close>: head and tail around the last slash; trailing slashes are
  stripped from the head unless it consists of slashes only.\<close>

definition path_split :: "string \<Rightarrow> string \<times> string" where
  "path_split p =
     (let i = nat (rfind CHR ''/'' p + 1);
          head = take i p;
          tail = drop i p
      in (if head \<noteq> [] \<and> head \<noteq> replicate (length head) CHR ''/''
          then rstrip CHR ''/'' head else head, tail))"

text \<open>\<^verbatim>\<open>posixpath.splitext\<close>: the extension starts at the last dot of the last
  component, unless only dots precede it there.\<close>

definition splitext :: "string \<Rightarrow> string \<times> string" where
  "splitext p =
     (let sepIndex = rfind CHR ''/'' p;
          dotIndex = rfind CHR ''.'' p
      in if sepIndex < dotIndex \<and>
            list_ex (\<lambda>c. c \<noteq> CHR ''.'') (take (nat dotIndex - nat (sepIndex + 1)) (drop (nat (sepIndex + 1)) p))
         then (take (nat dotIndex) p, drop (nat dotIndex) p)
         else (p, []))"

subsection \<open>Exceptions as values\<close>

definition bind :: "error + 'a \<Rightarrow> ('a \<Rightarrow> error + 'b) \<Rightarrow> error + 'b" where
  "bind m f = (case m of Inl e \<Rightarrow> Inl e | Inr x \<Rightarrow> f x)"

text \<open>A \<^verbatim>\<open>for\<close> loop whose body may raise: the first exception ends the loop.\<close>

fun for_each :: "('a \<Rightarrow> 's \<Rightarrow> error + 's) \<Rightarrow> 'a list \<Rightarrow> 's \<Rightarrow> error + 's" where
  "for_each body [] s = Inr s"
| "for_each body (x # xs) s =
     (case body x s of Inl e \<Rightarrow> Inl e | Inr s' \<Rightarrow> for_each body xs s')"

text \<open>\<^verbatim>\<open>print(fmt.format(*args))\<close> on a stream, kept as the list of the texts printed.\<close>

definition py_print :: "string \<Rightarrow> string list \<Rightarrow> string list \<Rightarrow> error + string list" where
  "py_print fmt args stream =
     (case py_format fmt args of Inl e \<Rightarrow> Inl e | Inr s \<Rightarrow> Inr (stream @ [s]))"

section \<open>The file system\<close>

text \<open>
  A file system is a finite table from paths to nodes; the first binding of a path
  counts.  A path is its literal text: the table is exact for normalised paths (no
  repeated and no trailing slash), which is what the module builds.
\<close>

datatype node = Dir | File string

type_synonym filesys = "(string \<times> node) list"

definition path_exists :: "filesys \<Rightarrow> string \<Rightarrow> bool" where
  "path_exists fs p = (map_of fs p \<noteq> None)"

definition isdir :: "filesys \<Rightarrow> string \<Rightarrow> bool" where
  "isdir fs p = (map_of fs p = Some Dir)"

definition isfile :: "filesys \<Rightarrow> string \<Rightarrow> bool" where
  "isfile fs p = (case map_of fs p of Some (File c) \<Rightarrow> True | _ \<Rightarrow> False)"

text \<open>\<open>under d p\<close>: the path \<open>p\<close> lies strictly below the directory \<open>d\<close>.\<close>

definition under :: "string \<Rightarrow> string \<Rightarrow> bool" where
  "under d p = prefix (d @ ''/'') p"

text \<open>The proper ancestors of a path: its prefixes that end before a slash.\<close>

definition ancestors :: "string \<Rightarrow> string list" where
  "ancestors p = map (\<lambda>i. take i p) (filter (\<lambda>i. 0 < i \<and> p ! i = CHR ''/'') [0..<length p])"

text \<open>\<^verbatim>\<open>shutil.rmtree(p)\<close>: removes the directory and everything below it.\<close>

definition rmtree :: "filesys \<Rightarrow> string \<Rightarrow> error + filesys" where
  "rmtree fs p =
     (if isdir fs p then Inr (filter (\<lambda>(q, n). q \<noteq> p \<and> \<not> under p q) fs) else Inl OSError)"

text \<open>\<^verbatim>\<open>os.makedirs(p)\<close>: creates the directory and its missing ancestors; raises when the
  path exists or an ancestor is a file.\<close>

definition makedirs :: "filesys \<Rightarrow> string \<Rightarrow> error + filesys" where
  "makedirs fs p =
     (if path_exists fs p \<or> list_ex (isfile fs) (ancestors p) then Inl OSError
      else Inr (fs @ map (\<lambda>a. (a, Dir)) (filter (\<lambda>a. \<not> path_exists fs a) (ancestors p) @ [p])))"

text \<open>\<^verbatim>\<open>os.remove(p)\<close>: removes a file; raises on a directory or a missing path.\<close>

definition os_remove :: "filesys \<Rightarrow> string \<Rightarrow> error + filesys" where
  "os_remove fs p =
     (if isfile fs p then Inr (filter (\<lambda>(q, n). q \<noteq> p) fs) else Inl OSError)"

text \<open>\<^verbatim>\<open>open(p, 'a')\<close>: creates an empty file when the path is missing and its directory
  exists; raises IOError on a directory or when the directory of the path is missing.\<close>

definition open_append :: "filesys \<Rightarrow> string \<Rightarrow> error + filesys" where
  "open_append fs p =
     (case map_of fs p of
        Some Dir \<Rightarrow> Inl IOError
      | Some (File c) \<Rightarrow> Inr fs
      | None \<Rightarrow>
          (let d = fst (path_split p)
           in if d = [] \<or> isdir fs d then Inr (fs @ [(p, File [])]) else Inl IOError))"

definition getsize :: "filesys \<Rightarrow> string \<Rightarrow> nat" where
  "getsize fs p = (case map_of fs p of Some (File c) \<Rightarrow> length c | _ \<Rightarrow> 0)"

text \<open>Writing to a file opened for appending, flushed when the file is closed.\<close>

definition append_to :: "filesys \<Rightarrow> string \<Rightarrow> string \<Rightarrow> filesys" where
  "append_to fs p s =
     map (\<lambda>(q, n). if q = p then (q, case n of File c \<Rightarrow> File (c @ s) | Dir \<Rightarrow> Dir) else (q, n)) fs"

section \<open>Tasks, jobs and the collaborators of the module\<close>

text \<open>
  \<^verbatim>\<open>Task\<close> and \<^verbatim>\<open>Job\<close> are classes of benchcore.  A task is its name, its completion
  hook and whether its \<^verbatim>\<open>onjobdone\<close> attribute is truthy; a job is the keyword
  arguments the evaluators build it from.  \<^verbatim>\<open>job.params\<close> is the two-key dictionary
  \<^verbatim>\<open>{'taskoutp': ..., 'jobsuff': ...}\<close>, kept as two fields.
\<close>

datatype aggregate = ModAggregate | NmixAggregate

datatype aggLevs_kind = ModAggLevs | NmiAggLevs | NmisAggLevs

record task =
  tname :: string
  t_ondone :: aggregate
  onjobdone :: bool

record job =
  jname :: string
  jtask :: "task option"
  workdir :: string
  jargs :: "string list"
  jtimeout :: nat
  j_ondone :: aggLevs_kind
  p_taskoutp :: string
  p_jobsuff :: string
  j_stderr :: string

text \<open>
  What the module takes from outside: the answers of \<^verbatim>\<open>glob.iglob\<close>, three functions
  of benchutils and benchcore, and the execution pool.
  \<^item> \<open>glob\<close>: the paths a pattern matches, in the order the system lists them.
  \<^item> \<open>escapePathWildcards\<close>: the function of benchutils.
  \<^item> \<open>execute_raises\<close>: \<open>Some msg\<close> when \<^verbatim>\<open>execpool.execute(job)\<close> raises a StandardError
    printing as \<open>msg\<close>, \<open>None\<close> when the pool takes the job.
  \<^item> \<open>parseFloat\<close>: Modelled from the spec: \<^verbatim>\<open>parseFloat\<close> of benchutils is not part of
    the sources; the callback "parses the remainder as a floating-point value".  A
    float is represented by the text \<^verbatim>\<open>'{}'.format\<close> prints for it; \<open>None\<close> is the \<^verbatim>\<open>None\<close>
    of a remainder that holds no float.
  \<^item> \<open>task_onjobdone\<close>: whether a \<^verbatim>\<open>Task\<close> built from a name and \<^verbatim>\<open>ondone\<close> alone has a
    truthy \<^verbatim>\<open>onjobdone\<close>.
\<close>

record env =
  glob :: "string \<Rightarrow> string list"
  escapePathWildcards :: "string \<Rightarrow> string"
  execute_raises :: "job \<Rightarrow> string option"
  parseFloat :: "string \<Rightarrow> string option"
  task_onjobdone :: bool

text \<open>
  The state the module acts on: the file system, what was printed on the two streams,
  the jobs the pool has taken, and the backups made (each the moved entries).
\<close>

record state =
  files :: filesys
  stdout :: "string list"
  stderr :: "string list"
  queue :: "job list"
  backups :: "filesys list"

section \<open>preparePath\<close>

text \<open>
  Modelled from the spec: \<^verbatim>\<open>dirempty\<close> is a function of benchutils, not part of the
  sources; "empty existing directories are treated as nothing to preserve".  A path is
  empty when no entry lies below it.
\<close>

definition dirempty :: "filesys \<Rightarrow> string \<Rightarrow> bool" where
  "dirempty fs p = (\<not> list_ex (\<lambda>(q, n). under p q) fs)"

text \<open>
  Modelled from the spec: \<^verbatim>\<open>backupPath\<close> is a function of benchutils, not part of
  the sources.  It is called as \<^verbatim>\<open>backupPath(mainpath, True)\<close> to "backup existent files
  and dirs with such base": the operation is to "move path aside, uniquely named, never
  overwriting an existing backup", and a later call "finds nothing left to move".  Every
  entry whose path starts with the base path is moved out of the file system into a new
  backup; when there is none, nothing is done.
\<close>

definition backupPath :: "string \<Rightarrow> bool \<Rightarrow> state \<Rightarrow> state" where
  "backupPath basepath expand st =
     (let moves = (\<lambda>q. if expand then prefix basepath q else q = basepath \<or> under basepath q);
          moved = filter (\<lambda>(q, n). moves q) (files st)
      in if moved = [] then st
         else st\<lparr>files := filter (\<lambda>(q, n). \<not> moves q) (files st),
                 backups := backups st @ [moved]\<rparr>)"

text \<open>Lines 66 to 86: the base path that stands for all instances, shuffles and
  parameters of one network.\<close>

definition mainpath_of :: "string \<Rightarrow> string" where
  "mainpath_of taskpath =
     (let (mainpath0, name0) = path_split taskpath;
          mainpath1 =
            (if name0 \<noteq> [] then
               (let name1 = fst (splitext name0);
                    pos = filter (\<lambda>x. 1 \<le> x) (map (\<lambda>c. rfind c name1) [SEPINST, SEPPARS]);
                    name2 = (if pos \<noteq> [] then take (nat (Min (set pos))) name1 else name1)
                in join ''/'' [mainpath0, name2])
             else mainpath0);
          i = rfind SEPINST mainpath1
      in if 0 \<le> i then
           (case py_int (drop (nat i + 1) mainpath1) of
              Inl e \<Rightarrow> mainpath1
            | Inr n \<Rightarrow> take (nat i) mainpath1)
         else mainpath1)"

definition preparePath :: "string \<Rightarrow> state \<Rightarrow> error + state" where
  "preparePath taskpath st =
     (let st1 = (if path_exists (files st) taskpath \<and> \<not> dirempty (files st) taskpath
                 then backupPath (mainpath_of taskpath) True st else st)
      in if \<not> path_exists (files st1) taskpath
         then bind (makedirs (files st1) taskpath) (\<lambda>fs. Inr (st1\<lparr>files := fs\<rparr>))
         else Inr st1)"

section \<open>evalGeneric\<close>

subsection \<open>The texts printed\<close>

definition WARN_PATHID :: string where
  "WARN_PATHID = ''WARNING, invalid pathid or file name uses pathid separator: {}. Exception: {}.''
     @ '' The processing is continued assuming that pathid is not exist for this file.''"

definition WARN_SHUFFLE :: string where
  \<open>WARN_SHUFFLE = ''WARNING, invalid shuffling index or it represents a part of the filename: "{}". Exception: {}''
     @ '' The processing is continued assuming that sfhulling is not exist for this file.''\<close>

definition WARN_INTERRUPTED :: string where
  \<open>WARN_INTERRUPTED = ''WARNING, "{}" job is interrupted by the exception: {}''\<close>

definition WARN_NOCLUSTERS :: string where
  \<open>WARN_NOCLUSTERS = ''WARNING, "{}" clusters "{}" do not exist to be evaluated''\<close>

text \<open>\<^verbatim>\<open>str(err)\<close> of a caught exception.\<close>

fun str_of_error :: "error \<Rightarrow> string" where
  "str_of_error (ValueError msg) = msg"
| "str_of_error e = []"

subsection \<open>Decoding the name of a clusters directory\<close>

text \<open>
  Lines 139 to 160: \<open>True\<close> when the loop goes on to the next directory, with what was
  printed on stdout.
\<close>

definition pathid_filter :: "string \<Rightarrow> string \<Rightarrow> string list \<Rightarrow> error + (bool \<times> string list)" where
  "pathid_filter pathid clsname out =
     (if pathid \<noteq> [] \<and> \<not> endswith clsname pathid then Inr (True, out)
      else if pathid = [] then
        (let icnpid = rfind CHR ''#'' clsname
         in if icnpid \<noteq> - 1 \<and> icnpid + 1 < int (length clsname) then
              (let icnpid1 = (if clsname ! nat (icnpid + 1) = PATHID_FILE then icnpid + 1 else icnpid)
               in case py_int (drop (nat (icnpid1 + 1)) clsname) of
                    Inl err \<Rightarrow>
                      bind (py_print WARN_PATHID [clsname, str_of_error err] out)
                        (\<lambda>out1. Inr (False, out1))
                  | Inr n \<Rightarrow> Inr (True, out))
            else Inr (False, out))
      else Inr (False, out))"

text \<open>Line 164: the instances of the network are left out.\<close>

definition instance_filter :: "nat \<Rightarrow> string \<Rightarrow> bool" where
  "instance_filter tcapLen clsname = (tcapLen < length clsname \<and> clsname ! tcapLen = SEPINST)"

text \<open>
  Lines 168 to 179: the shuffling index, empty when there is none or when it is not an
  integer.  \<open>icnpid\<close> is the index of the pathid in the name.
\<close>

definition shuffle_index :: "string \<Rightarrow> nat \<Rightarrow> string list \<Rightarrow> error + (string \<times> string list)" where
  "shuffle_index clsname icnpid out =
     (let ish = nat (rfind CHR ''.'' (take icnpid clsname) + 1);
          shuffle = (if ish \<noteq> 0 then take (icnpid - ish) (drop ish clsname) else [])
      in if shuffle \<noteq> [] then
           (case py_int shuffle of
              Inl err \<Rightarrow>
                bind (py_print WARN_SHUFFLE [clsname, str_of_error err] out)
                  (\<lambda>out1. Inr ([], out1))
            | Inr n \<Rightarrow> Inr (shuffle, out))
         else Inr (shuffle, out))"

subsection \<open>The outputs of a group\<close>

text \<open>Lines 185 to 188.\<close>

definition tidy_logsbase :: "bool \<Rightarrow> string \<Rightarrow> filesys \<Rightarrow> error + filesys" where
  "tidy_logsbase tidy logsbase fs =
     bind (if tidy \<and> path_exists fs logsbase then rmtree fs logsbase else Inr fs)
       (\<lambda>fs1. if tidy \<or> \<not> path_exists fs1 logsbase then makedirs fs1 logsbase else Inr fs1)"

text \<open>Lines 191 to 195: the file that accumulates the values of the group.\<close>

definition task_output :: "string \<Rightarrow> string \<Rightarrow> string \<Rightarrow> string \<Rightarrow> string" where
  "task_output evalname pathid shuffle logsbase =
     (let taskoutp0 = (if shuffle \<noteq> [] then fst (splitext logsbase) else logsbase);
          taskoutp1 = (if shuffle \<noteq> [] \<and> pathid \<noteq> [] then taskoutp0 @ pathid else taskoutp0)
      in join ''.'' [taskoutp1, evalname])"

text \<open>Lines 196 and 197.\<close>

definition tidy_taskoutp :: "bool \<Rightarrow> string \<Rightarrow> filesys \<Rightarrow> error + filesys" where
  "tidy_taskoutp tidy taskoutp fs =
     (if tidy \<and> path_exists fs taskoutp then os_remove fs taskoutp else Inr fs)"

subsection \<open>The jobs of a group\<close>

text \<open>
  The evaluation callback has the signature
  \<^verbatim>\<open>evalfile(jobs, cfile, jobname, task, taskoutp, rcpoutp, jobsuff, logsbase)\<close> and appends
  one job to \<open>jobs\<close>; here it returns the job.
\<close>

type_synonym evalfile =
  "string \<Rightarrow> string \<Rightarrow> task \<Rightarrow> string \<Rightarrow> string \<Rightarrow> string \<Rightarrow> string \<Rightarrow> job"

text \<open>Lines 201 to 220: the body of the loop over the files of a clusters directory.\<close>

definition eval_cfile ::
  "evalfile \<Rightarrow> filesys \<Rightarrow> string \<Rightarrow> string \<Rightarrow> string \<Rightarrow> string \<Rightarrow> task \<Rightarrow> string \<Rightarrow> string
   \<Rightarrow> string \<Rightarrow> string \<Rightarrow> job list \<Rightarrow> error + job list" where
  "eval_cfile evalfile fs evalname algname clsname shuffle tsk taskoutp rcpoutp logsbase cfile jobs =
     (if isdir fs cfile then Inr jobs
      else
        (let jbasename0 = fst (splitext (snd (path_split cfile)))
         in if jbasename0 = [] then Inl AssertionError
            else
              (let jscorr0 = str_find clsname jbasename0;
                   jscorr = (if jscorr0 = - 1 then 0 else jscorr0);
                   jbasename = (if jscorr0 = - 1 then join ''_'' [clsname, jbasename0] else jbasename0);
                   jobcapt0 = drop (nat (jscorr + int (length clsname) + 1)) jbasename;
                   jobcapt = (if shuffle \<noteq> [] then join ''_'' [shuffle, jobcapt0] else jobcapt0);
                   jobname = join ''_'' [evalname, clsname, algname];
                   logfilebase = join ''/'' [logsbase, jbasename]
               in Inr (jobs @ [evalfile cfile jobname tsk taskoutp rcpoutp jobcapt logfilebase]))))"

subsection \<open>The loop over the clusters directories\<close>

text \<open>
  The loop carries the state, the jobs built so far and the variable \<^verbatim>\<open>clsname\<close>, which
  is unbound (\<open>None\<close>) until the first directory is met.
\<close>

type_synonym loop_state = "state \<times> job list \<times> string option"

text \<open>Lines 167 to 220: a directory that passed the filters.\<close>

definition process_group ::
  "env \<Rightarrow> string \<Rightarrow> string \<Rightarrow> string \<Rightarrow> evalfile \<Rightarrow> string \<Rightarrow> bool \<Rightarrow> task \<Rightarrow> string
   \<Rightarrow> string \<Rightarrow> string \<Rightarrow> state \<Rightarrow> job list \<Rightarrow> error + loop_state" where
  "process_group env evalname algname measdir evalfile pathid tidy tsk rcpoutp clsbase clsname st jobs =
     bind (shuffle_index clsname (length clsname - length pathid) (stdout st))
       (\<lambda>(shuffle, out1).
          let logsbase = str_replace CLSDIR measdir clsbase
          in bind (tidy_logsbase tidy logsbase (files st))
               (\<lambda>fs1.
                  let taskoutp = task_output evalname pathid shuffle logsbase
                  in bind (tidy_taskoutp tidy taskoutp fs1)
                       (\<lambda>fs2.
                          bind (for_each
                                  (eval_cfile evalfile fs2 evalname algname clsname shuffle tsk
                                     taskoutp rcpoutp logsbase)
                                  (glob env (escapePathWildcards env clsbase @ ''/*'')) jobs)
                            (\<lambda>jobs1. Inr (st\<lparr>files := fs2, stdout := out1\<rparr>, jobs1, Some clsname)))))"

text \<open>Lines 133 to 220: the body of the loop over the clusters directories.\<close>

definition eval_group ::
  "env \<Rightarrow> string \<Rightarrow> string \<Rightarrow> string \<Rightarrow> evalfile \<Rightarrow> string \<Rightarrow> bool \<Rightarrow> nat \<Rightarrow> task \<Rightarrow> string
   \<Rightarrow> string \<Rightarrow> loop_state \<Rightarrow> error + loop_state" where
  "eval_group env evalname algname measdir evalfile pathid tidy tcapLen tsk rcpoutp clsbase ls =
     (case ls of (st, jobs, lastcls) \<Rightarrow>
        if \<not> isdir (files st) clsbase then Inr (st, jobs, lastcls)
        else
          (let clsname = snd (path_split clsbase)
           in bind (pathid_filter pathid clsname (stdout st))
                (\<lambda>(skip, out1).
                   let st1 = st\<lparr>stdout := out1\<rparr>
                   in if skip then Inr (st1, jobs, Some clsname)
                      else if instance_filter tcapLen clsname then Inr (st1, jobs, Some clsname)
                      else process_group env evalname algname measdir evalfile pathid tidy tsk
                             rcpoutp clsbase clsname st1 jobs)))"

text \<open>Lines 222 to 228: a job the pool refuses is reported and the others are still
  submitted.\<close>

definition submit :: "env \<Rightarrow> job \<Rightarrow> state \<Rightarrow> error + state" where
  "submit env j st =
     (case execute_raises env j of
        None \<Rightarrow> Inr (st\<lparr>queue := queue st @ [j]\<rparr>)
      | Some msg \<Rightarrow>
          bind (py_print WARN_INTERRUPTED [jname j, msg] (stderr st))
            (\<lambda>err1. Inr (st\<lparr>stderr := err1\<rparr>)))"

definition evalGeneric ::
  "env \<Rightarrow> string \<Rightarrow> string \<Rightarrow> string \<Rightarrow> string \<Rightarrow> nat \<Rightarrow> evalfile \<Rightarrow> aggregate \<Rightarrow> string \<Rightarrow> bool
   \<Rightarrow> state \<Rightarrow> error + state" where
  "evalGeneric env evalname algname basefile measdir timeout evalfile aggr pathid tidy st =
     (if \<not> (basefile \<noteq> [] \<and> evalname \<noteq> [] \<and> algname \<noteq> []) then Inl AssertionError
      else if \<not> (pathid = [] \<or> hd pathid = SEPPATHID) then Inl AssertionError
      else
        (let taskcapt = fst (splitext (snd (path_split basefile)));
             ishuf = snd (splitext taskcapt)
         in if \<not> (taskcapt \<noteq> [] \<and> ishuf = []) then Inl AssertionError
            else
              (let tcapLen = length taskcapt;
                   rcpoutp = concat [RESDIR, algname, ''/'', evalname, EXTEXECTIME];
                   tsk = \<lparr>tname = join ''_'' [evalname, taskcapt, pathid, algname],
                          t_ondone = aggr, onjobdone = task_onjobdone env\<rparr>
               in bind (for_each
                          (eval_group env evalname algname measdir evalfile pathid tidy tcapLen tsk rcpoutp)
                          (glob env (concat [RESDIR, algname, ''/'', CLSDIR,
                                             escapePathWildcards env taskcapt, ''*'']))
                          (st, [], None))
                    (\<lambda>(st1, jobs, lastcls).
                       if jobs \<noteq> [] then for_each (submit env) jobs st1
                       else
                         (case lastcls of
                            None \<Rightarrow> Inl UnboundLocalError
                          | Some clsname \<Rightarrow>
                              bind (py_print WARN_NOCLUSTERS [algname, clsname] (stderr st1))
                                (\<lambda>err1. Inr (st1\<lparr>stderr := err1\<rparr>)))))))"

section \<open>evalAlgorithm\<close>

subsection \<open>The evaluators\<close>

text \<open>
  The three nested functions build a job each; \<open>basefile\<close> and \<open>timeout\<close> are the
  variables of \<^verbatim>\<open>evalAlgorithm\<close> they close over.  The update of \<^verbatim>\<open>LD_LIBRARY_PATH\<close> in
  \<^verbatim>\<open>nmiEvaluate\<close> acts on the process environment, which is not part of the state.
\<close>

definition modEvaluate :: "string \<Rightarrow> nat \<Rightarrow> evalfile" where
  "modEvaluate basefile timeout cfile jobname tsk taskoutp rcpoutp jobsuff logsbase =
     \<lparr>jname = jobname, jtask = Some tsk, workdir = ALGSDIR,
      jargs = [''./hirecs'', ''-e=../'' @ cfile, ''../'' @ basefile],
      jtimeout = timeout, j_ondone = ModAggLevs,
      p_taskoutp = taskoutp, p_jobsuff = jobsuff, j_stderr = logsbase @ EXTERR\<rparr>"

definition nmiEvaluate :: "string \<Rightarrow> nat \<Rightarrow> evalfile" where
  "nmiEvaluate basefile timeout cfile jobname tsk taskoutp rcpoutp jobsuff logsbase =
     \<lparr>jname = jobname, jtask = Some tsk, workdir = ALGSDIR,
      jargs = [''../exectime'', ''-o=../'' @ rcpoutp, ''-n='' @ jobname, ''./gecmi'',
              ''../'' @ basefile, ''../'' @ cfile],
      jtimeout = timeout, j_ondone = NmiAggLevs,
      p_taskoutp = taskoutp, p_jobsuff = jobsuff, j_stderr = logsbase @ EXTERR\<rparr>"

definition nmisEvaluate :: "string \<Rightarrow> nat \<Rightarrow> evalfile" where
  "nmisEvaluate basefile timeout cfile jobname tsk taskoutp rcpoutp jobsuff logsbase =
     \<lparr>jname = jobname, jtask = Some tsk, workdir = ALGSDIR,
      jargs = [''../exectime'', ''-o=../'' @ rcpoutp, ''-n='' @ jobname, ''./onmi_sum'',
              ''../'' @ basefile, ''../'' @ cfile],
      jtimeout = timeout, j_ondone = NmisAggLevs,
      p_taskoutp = taskoutp, p_jobsuff = jobsuff, j_stderr = logsbase @ EXTERR\<rparr>"

subsection \<open>The completion callback of a modularity job\<close>

definition targpref :: string where "targpref = ''mod: ''"

definition ERR_MODFORMAT :: string where
  \<open>ERR_MODFORMAT = ''ERROR, job "{}" has invalid output format. Moularity value is not found in:\<newline>{}''\<close>

definition WARN_ONJOBDONE :: string where
  \<open>WARN_ONJOBDONE = ''WARNING, task "{}" of job "{}" has no defined onjobdone() to aggregate results:\<newline>{}''\<close>

definition MOD_HEADER :: string where
  "MOD_HEADER = ''# Q'' @ [CHR 0x09] @ ''[ShuffleIndex_]Level'' @ [CHR 0x0A]"

definition ROW_FORMAT :: string where
  "ROW_FORMAT = ''{}'' @ [CHR 0x09] @ ''{}'' @ [CHR 0x0A]"

text \<open>
  How a call of the callback ends: it returns, it raises, or its last action is the call
  \<^verbatim>\<open>job.task.onjobdone(job, mod)\<close> of a hook that belongs to the task.
\<close>

datatype outcome = Returned | Raised error | Onjobdone string

text \<open>
  \<^verbatim>\<open>aggLevs\<close> of \<^verbatim>\<open>modEvaluate\<close>, lines 282 to 305.  \<open>result\<close> is the captured output
  \<^verbatim>\<open>job.proc.communicate()[0]\<close> and \<open>modv\<close> the variable \<^verbatim>\<open>mod\<close>.  What was written stays written when the callback raises:
  the \<^verbatim>\<open>with\<close> block closes the file.
\<close>

definition aggLevs :: "env \<Rightarrow> job \<Rightarrow> string \<Rightarrow> state \<Rightarrow> state \<times> outcome" where
  "aggLevs env j result st =
     (case (if startswith result targpref then parseFloat env (drop (length targpref) result) else None) of
        None \<Rightarrow>
          (case py_print ERR_MODFORMAT [jname j, result] (stderr st) of
             Inl e \<Rightarrow> (st, Raised e)
           | Inr err1 \<Rightarrow> (st\<lparr>stderr := err1\<rparr>, Returned))
      | Some modv \<Rightarrow>
          (let taskoutp = p_taskoutp j
           in case open_append (files st) taskoutp of
                Inl e \<Rightarrow> (st, Raised e)
              | Inr fs1 \<Rightarrow>
                  (let fs2 = (if getsize fs1 taskoutp = 0 then append_to fs1 taskoutp MOD_HEADER else fs1)
                   in case py_format ROW_FORMAT [modv, p_jobsuff j] of
                        Inl e \<Rightarrow> (st\<lparr>files := fs2\<rparr>, Raised e)
                      | Inr row \<Rightarrow>
                          (let st3 = st\<lparr>files := append_to fs2 taskoutp row\<rparr>
                           in if (case jtask j of None \<Rightarrow> False | Some t \<Rightarrow> onjobdone t)
                              then (st3, Onjobdone modv)
                              else
                                (case py_print WARN_ONJOBDONE [jname j, result] (stderr st3) of
                                   Inl e \<Rightarrow> (st3, Raised e)
                                 | Inr err1 \<Rightarrow> (st3\<lparr>stderr := err1\<rparr>, Returned))))))"

text \<open>Callbacks run one after the other, each on the state the one before left.\<close>

definition run_callbacks :: "env \<Rightarrow> (job \<times> string) list \<Rightarrow> state \<Rightarrow> state" where
  "run_callbacks env jrs st = fold (\<lambda>(j, result) s. fst (aggLevs env j result s)) jrs st"

subsection \<open>The dispatch on the measure\<close>

definition MSG_EVALUATING :: string where
  \<open>MSG_EVALUATING = ''Evaluating {} for "{}" on base of "{}"...''\<close>

definition evalAlgorithm ::
  "env \<Rightarrow> string \<Rightarrow> string \<Rightarrow> string \<Rightarrow> nat \<Rightarrow> string \<Rightarrow> state \<Rightarrow> error + state" where
  "evalAlgorithm env algname basefile meas timeout pathid st =
     (if \<not> (pathid = [] \<or> hd pathid = SEPPATHID) then Inl AssertionError
      else
        bind (py_print MSG_EVALUATING [meas, algname, basefile] (stdout st))
          (\<lambda>out1.
             let st1 = st\<lparr>stdout := out1\<rparr>
             in if meas = ''mod'' then
                  evalGeneric env meas algname basefile MODDIR timeout
                    (modEvaluate basefile timeout) ModAggregate pathid True st1
                else if meas = ''nmi'' then
                  evalGeneric env meas algname basefile NMIDIR timeout
                    (nmiEvaluate basefile timeout) NmixAggregate pathid True st1
                else if meas = ''nmi_s'' then
                  evalGeneric env meas algname basefile NMIDIR timeout
                    (nmisEvaluate basefile timeout) NmixAggregate pathid False st1
                else Inl (ValueError (''Unexpected measure: '' @ meas))))"

section \<open>Notions used to state the properties\<close>

text \<open>The number of replacement fields of a format string.\<close>

fun count_fields :: "string \<Rightarrow> nat" where
  "count_fields [] = 0"
| "count_fields [c] = 0"
| "count_fields (c # d # rest) =
     (if c = CHR ''{'' \<and> d = CHR ''}'' then Suc (count_fields rest) else count_fields (d # rest))"

text \<open>
  The path-id a name decodes to, as the design describes it: the text from the last
  path-id separator on, when what follows the separator is an integer, or the file
  marker and an integer; no path-id otherwise.
\<close>

definition spec_pathid :: "string \<Rightarrow> string option" where
  "spec_pathid nm =
     (let i = rfind SEPPATHID nm
      in if i < 0 then None
         else
           (let suf = drop (nat i + 1) nm
            in if int_ok suf \<or> (suf \<noteq> [] \<and> hd suf = PATHID_FILE \<and> int_ok (tl suf))
               then Some (drop (nat i) nm) else None))"

text \<open>The bytes of a file; empty for a path that is no file.\<close>

definition file_content :: "filesys \<Rightarrow> string \<Rightarrow> string" where
  "file_content fs p = (case map_of fs p of Some (File c) \<Rightarrow> c | _ \<Rightarrow> [])"

text \<open>
  The row a callback of a modularity job records for a captured output: the value and
  the caption of the job, separated by a tab and ended by a newline; none when the
  output does not start with the prefix or holds no float after it.
\<close>

definition recorded_row :: "env \<Rightarrow> job \<Rightarrow> string \<Rightarrow> string option" where
  "recorded_row env j result =
     (if startswith result targpref
      then map_option (\<lambda>v. v @ [CHR 0x09] @ p_jobsuff j @ [CHR 0x0A])
             (parseFloat env (drop (length targpref) result))
      else None)"

text \<open>A path that \<^verbatim>\<open>open(p, 'a')\<close> opens: a file, or a missing path in an existing
  directory.\<close>

definition openable :: "filesys \<Rightarrow> string \<Rightarrow> bool" where
  "openable fs p =
     (isfile fs p \<or> (\<not> path_exists fs p \<and> (fst (path_split p) = [] \<or> isdir fs (fst (path_split p)))))"

section \<open>A small benchmark tree\<close>

text \<open>
  The results of the algorithm \<open>alg\<close> on the network \<open>net\<close>: a clusters directory
  \<open>net2\<close> of another network, a directory of the instance \<open>net^1\<close>, and what an earlier
  evaluation of the modularity left behind.
\<close>

definition ex_files :: filesys where
  "ex_files =
     [(''results'', Dir), (''results/alg'', Dir), (''results/alg/clusters'', Dir),
      (''results/alg/clusters/net2'', Dir),
      (''results/alg/clusters/net2/net2_1.cnl'', File ''1 2''),
      (''results/alg/clusters/net^1'', Dir),
      (''results/alg/clusters/net^1/net^1_1.cnl'', File ''1 2''),
      (''results/alg/mod'', Dir),
      (''results/alg/mod/net2'', Dir),
      (''results/alg/mod/net2/net2_1.err'', File ''old''),
      (''results/alg/mod/net2.mod'', File ''old'')]"

definition ex_glob :: "string \<Rightarrow> string list" where
  "ex_glob pat =
     (if pat = ''results/alg/clusters/net*''
      then [''results/alg/clusters/net2'', ''results/alg/clusters/net^1'']
      else if pat = ''results/alg/clusters/net2/*'' then [''results/alg/clusters/net2/net2_1.cnl'']
      else if pat = ''results/alg/clusters/net^1/*'' then [''results/alg/clusters/net^1/net^1_1.cnl'']
      else [])"

definition ex_env :: env where
  "ex_env = \<lparr>glob = ex_glob, escapePathWildcards = (\<lambda>s. s), execute_raises = (\<lambda>j. None),
             parseFloat = (\<lambda>s. if s = ''0.5'' then Some s else None), task_onjobdone = False\<rparr>"

definition ex_state :: state where
  "ex_state = \<lparr>files = ex_files, stdout = [], stderr = [], queue = [], backups = []\<rparr>"

definition ex_task :: task where
  "ex_task = \<lparr>tname = ''mod_net__alg'', t_ondone = ModAggregate, onjobdone = False\<rparr>"

text \<open>The jobs of the first levels of two shuffles of the network, as \<^verbatim>\<open>modEvaluate\<close> builds
  them; both accumulate in the file of the network.\<close>

definition ex_job1 :: job where
  "ex_job1 = modEvaluate ''nets/net.cnl'' 10 ''results/alg/clusters/net.1/net.1_3.cnl''
     ''mod_net.1_alg'' ex_task ''results/alg/mod/net.mod'' ''results/alg/mod.rcp'' ''1_3''
     ''results/alg/mod/net.1/net.1_3''"

definition ex_job2 :: job where
  "ex_job2 = modEvaluate ''nets/net.cnl'' 10 ''results/alg/clusters/net.2/net.2_3.cnl''
     ''mod_net.2_alg'' ex_task ''results/alg/mod/net.mod'' ''results/alg/mod.rcp'' ''2_3''
     ''results/alg/mod/net.2/net.2_3''"

section \<open>Strings, formats and integer validation\<close>

lemma rfind_lower: "- 1 \<le> rfind c s"
  by (induction s) (auto simp: Let_def)

lemma rfind_upper: "rfind c s < int (length s)"
  by (induction s) (auto simp: Let_def)

lemma rfind_neg_iff: "rfind c s < 0 \<longleftrightarrow> c \<notin> set s"
  by (induction s) (auto simp: Let_def)

lemma rfind_notin: "c \<notin> set s \<Longrightarrow> rfind c s = - 1"
  using rfind_neg_iff[of c s] rfind_lower[of c s] by linarith

lemma rfind_append_notin: "c \<notin> set ys \<Longrightarrow> rfind c (xs @ c # ys) = int (length xs)"
  by (induction xs) (auto simp: Let_def rfind_notin)

lemma rfind_append_notin2: "c \<notin> set ys \<Longrightarrow> rfind c (xs @ ys) = rfind c xs"
  by (induction xs) (auto simp: Let_def rfind_notin)

lemma rfind_split:
  assumes "0 \<le> rfind c s"
  shows "s = take (nat (rfind c s)) s @ c # drop (nat (rfind c s) + 1) s \<and> c \<notin> set (drop (nat (rfind c s) + 1) s)"
  using assms
proof (induction s)
  case Nil
  then show ?case by simp
next
  case (Cons x xs)
  show ?case
  proof (cases "0 \<le> rfind c xs")
    case True
    with Cons.IH have ih: "xs = take (nat (rfind c xs)) xs @ c # drop (nat (rfind c xs) + 1) xs"
      "c \<notin> set (drop (nat (rfind c xs) + 1) xs)" by auto
    from True have r: "rfind c (x # xs) = rfind c xs + 1" by (simp add: Let_def)
    have n: "nat (rfind c xs + 1) = Suc (nat (rfind c xs))" using True by simp
    show ?thesis unfolding r n using ih by simp
  next
    case False
    with Cons.prems have "x = c" "rfind c (x # xs) = 0" by (auto simp: Let_def split: if_splits)
    moreover from False have "c \<notin> set xs" using rfind_neg_iff[of c xs] by simp
    ultimately show ?thesis by simp
  qed
qed

lemma endswith_iff: "endswith s suf \<longleftrightarrow> (\<exists>pre. s = pre @ suf)"
proof
  assume "endswith s suf"
  then have "s = take (length s - length suf) s @ suf"
    by (metis append_take_drop_id endswith_def)
  then show "\<exists>pre. s = pre @ suf" ..
next
  assume "\<exists>pre. s = pre @ suf"
  then show "endswith s suf" by (auto simp: endswith_def)
qed

lemma py_format_enough: "count_fields fmt \<le> length args \<Longrightarrow> \<exists>s. py_format fmt args = Inr s"
proof (induction fmt args rule: py_format.induct)
  case (3 c d rest args)
  show ?case
  proof (cases "c = CHR ''{'' \<and> d = CHR ''}''")
    case True
    with 3 show ?thesis by (cases args) (auto split: sum.splits)
  next
    case False
    with 3 show ?thesis by (auto split: sum.splits)
  qed
qed simp_all

lemma py_format_short: "length args < count_fields fmt \<Longrightarrow> py_format fmt args = Inl IndexError"
proof (induction fmt args rule: py_format.induct)
  case (3 c d rest args)
  show ?case
  proof (cases "c = CHR ''{'' \<and> d = CHR ''}''")
    case True
    with 3 show ?thesis by (cases args) (auto split: sum.splits)
  next
    case False
    with 3 show ?thesis by (auto split: sum.splits)
  qed
qed simp_all

lemma count_WARN_PATHID: "count_fields WARN_PATHID = 2" by (simp add: WARN_PATHID_def)
lemma count_WARN_SHUFFLE: "count_fields WARN_SHUFFLE = 2" by (simp add: WARN_SHUFFLE_def)
lemma count_WARN_ONJOBDONE: "count_fields WARN_ONJOBDONE = 3" by (simp add: WARN_ONJOBDONE_def)
lemma count_ERR_MODFORMAT: "count_fields ERR_MODFORMAT = 2" by (simp add: ERR_MODFORMAT_def)
lemma count_WARN_NOCLUSTERS: "count_fields WARN_NOCLUSTERS = 2" by (simp add: WARN_NOCLUSTERS_def)
lemma count_WARN_INTERRUPTED: "count_fields WARN_INTERRUPTED = 2" by (simp add: WARN_INTERRUPTED_def)
lemma count_MSG_EVALUATING: "count_fields MSG_EVALUATING = 3" by (simp add: MSG_EVALUATING_def)
lemma row_format: "py_format ROW_FORMAT [a, b] = Inr (a @ [CHR 0x09] @ b @ [CHR 0x0A])" by (simp add: ROW_FORMAT_def)

lemma int_ok_unfold:
  "int_ok s \<longleftrightarrow>
     takeWhile isdigit (dropWhile isspace (if dropWhile isspace s \<noteq> [] \<and> (hd (dropWhile isspace s) = CHR ''+'' \<or> hd (dropWhile isspace s) = CHR ''-'') then tl (dropWhile isspace s) else dropWhile isspace s)) \<noteq> [] \<and>
     dropWhile isspace (dropWhile isdigit (dropWhile isspace (if dropWhile isspace s \<noteq> [] \<and> (hd (dropWhile isspace s) = CHR ''+'' \<or> hd (dropWhile isspace s) = CHR ''-'') then tl (dropWhile isspace s) else dropWhile isspace s))) = []"
  unfolding int_ok_def py_int_def Let_def
  by (simp only: sum.case if_distrib[of "case_sum (\<lambda>_. False) (\<lambda>_. True)"] if_bool_eq_conj) simp


lemma int_ok_chars:
  assumes "int_ok s" and "c \<in> set s"
  shows "isspace c \<or> c = CHR ''+'' \<or> c = CHR ''-'' \<or> isdigit c"
proof -
  define t where "t = dropWhile isspace s"
  define u where "u = (if t \<noteq> [] \<and> (hd t = CHR ''+'' \<or> hd t = CHR ''-'') then tl t else t)"
  define v where "v = dropWhile isspace u"
  define w where "w = dropWhile isdigit v"
  from assms(1) have "dropWhile isspace w = []"
    unfolding int_ok_unfold t_def u_def v_def w_def by blast
  then have w: "\<forall>x\<in>set w. isspace x" by (simp add: dropWhile_eq_Nil_conv)
  have s: "s = takeWhile isspace s @ t" by (simp add: t_def)
  have v: "v = takeWhile isdigit v @ w" by (simp add: w_def)
  have u: "u = takeWhile isspace u @ v" by (simp add: v_def)
  have t: "c \<in> set t \<Longrightarrow> c = CHR ''+'' \<or> c = CHR ''-'' \<or> c \<in> set u"
    by (cases t) (auto simp: u_def split: if_splits)
  from assms(2) s have "c \<in> set (takeWhile isspace s) \<or> c \<in> set t"
    by (metis Un_iff set_append)
  then show ?thesis
  proof
    assume "c \<in> set (takeWhile isspace s)"
    then show ?thesis by (auto dest: set_takeWhileD)
  next
    assume "c \<in> set t"
    with t consider "c = CHR ''+'' \<or> c = CHR ''-''" | "c \<in> set u" by blast
    then show ?thesis
    proof cases
      case 1
      then show ?thesis by blast
    next
      case 2
      with u have "c \<in> set (takeWhile isspace u) \<or> c \<in> set v" by (metis Un_iff set_append)
      then show ?thesis
      proof
        assume "c \<in> set (takeWhile isspace u)"
        then show ?thesis by (auto dest: set_takeWhileD)
      next
        assume "c \<in> set v"
        with v have "c \<in> set (takeWhile isdigit v) \<or> c \<in> set w" by (metis Un_iff set_append)
        then show ?thesis using w by (auto dest: set_takeWhileD)
      qed
    qed
  qed
qed

lemma int_ok_no_hash: "int_ok s \<Longrightarrow> CHR ''#'' \<notin> set s"
  using int_ok_chars[of s "CHR ''#''"] by (auto simp: isspace_def isdigit_def)

lemma int_ok_no_dot: "int_ok s \<Longrightarrow> CHR ''.'' \<notin> set s"
  using int_ok_chars[of s "CHR ''.''"] by (auto simp: isspace_def isdigit_def)

lemma int_ok_no_slash: "int_ok s \<Longrightarrow> CHR ''/'' \<notin> set s"
  using int_ok_chars[of s "CHR ''/''"] by (auto simp: isspace_def isdigit_def)

lemma int_ok_no_f: "int_ok s \<Longrightarrow> CHR ''f'' \<notin> set s"
  using int_ok_chars[of s "CHR ''f''"] by (auto simp: isspace_def isdigit_def)

lemma int_ok_nonempty: "int_ok s \<Longrightarrow> s \<noteq> []"
  unfolding int_ok_unfold by auto

lemma py_int_cases: "(\<exists>n. py_int s = Inr n \<and> int_ok s) \<or> (py_int s = Inl (ValueError (int_errmsg s)) \<and> \<not> int_ok s)"
  unfolding int_ok_def py_int_def Let_def by (simp only: sum.case split: if_split) blast

section \<open>The path-id filter\<close>

lemma py_print_two:
  "count_fields fmt = 2 \<Longrightarrow> \<exists>msg. py_format fmt [a, b] = Inr msg \<and> py_print fmt [a, b] out = Inr (out @ [msg])"
  using py_format_enough[of fmt "[a, b]"] by (auto simp: py_print_def)

lemma spec_pathid_Some_suffix:
  assumes "spec_pathid nm = Some p"
  shows "endswith nm p"
proof -
  from assms have "p = drop (nat (rfind SEPPATHID nm)) nm"
    by (auto simp: spec_pathid_def Let_def split: if_splits)
  then have "nm = take (nat (rfind SEPPATHID nm)) nm @ p" by simp
  then show ?thesis unfolding endswith_iff by blast
qed

lemma spec_pathid_self:
  assumes "p \<noteq> []" and "spec_pathid p = Some p"
  obtains r where "p = CHR ''#'' # r" and "CHR ''#'' \<notin> set r"
    and "int_ok r \<or> (r \<noteq> [] \<and> hd r = PATHID_FILE \<and> int_ok (tl r))"
proof -
  let ?i = "rfind SEPPATHID p"
  from assms(2) have i: "0 \<le> ?i" and d: "drop (nat ?i) p = p"
    and v: "int_ok (drop (nat ?i + 1) p) \<or> (drop (nat ?i + 1) p \<noteq> [] \<and> hd (drop (nat ?i + 1) p) = PATHID_FILE \<and> int_ok (tl (drop (nat ?i + 1) p)))"
    by (auto simp: spec_pathid_def Let_def split: if_splits)
  from d assms(1) have z: "nat ?i = 0"
    by (metis drop_eq_Nil2 append_take_drop_id length_drop diff_is_0_eq' diff_diff_cancel le_refl length_0_conv nat_le_linear self_append_conv2 take_eq_Nil)
  from rfind_split[OF i] z have "p = CHR ''#'' # drop 1 p" "CHR ''#'' \<notin> set (drop 1 p)"
    by (auto simp: SEPPATHID_def)
  with v z that show thesis by auto
qed

lemma spec_pathid_append:
  assumes "CHR ''#'' \<notin> set r"
    and "int_ok r \<or> (r \<noteq> [] \<and> hd r = PATHID_FILE \<and> int_ok (tl r))"
  shows "spec_pathid (pre @ CHR ''#'' # r) = Some (CHR ''#'' # r)"
  using assms by (simp add: spec_pathid_def SEPPATHID_def rfind_append_notin)

lemma pathid_filter_nonempty:
  "pathid \<noteq> [] \<Longrightarrow> pathid_filter pathid clsname out = Inr (\<not> endswith clsname pathid, out)"
  by (simp add: pathid_filter_def)

lemma pathid_filter_requested:
  assumes "pathid \<noteq> []" and "spec_pathid pathid = Some pathid"
  shows "pathid_filter pathid clsname out = Inr (spec_pathid clsname \<noteq> Some pathid, out)"
proof -
  from assms obtain r where p: "pathid = CHR ''#'' # r" and r: "CHR ''#'' \<notin> set r"
    and v: "int_ok r \<or> (r \<noteq> [] \<and> hd r = PATHID_FILE \<and> int_ok (tl r))"
    by (rule spec_pathid_self)
  have "endswith clsname pathid \<longleftrightarrow> spec_pathid clsname = Some pathid"
  proof
    assume "endswith clsname pathid"
    then obtain pre where "clsname = pre @ pathid" unfolding endswith_iff by blast
    with p spec_pathid_append[OF r v] show "spec_pathid clsname = Some pathid" by simp
  next
    assume "spec_pathid clsname = Some pathid"
    then show "endswith clsname pathid" by (rule spec_pathid_Some_suffix)
  qed
  with pathid_filter_nonempty[OF assms(1)] show ?thesis by simp
qed

lemma int_ok_hd_not_f: "int_ok s \<Longrightarrow> hd s \<noteq> PATHID_FILE"
  using int_ok_no_f[of s] int_ok_nonempty[of s] by (cases s) (auto simp: PATHID_FILE_def)

lemma pathid_filter_empty_valid:
  assumes "spec_pathid clsname \<noteq> None"
  shows "pathid_filter [] clsname out = Inr (True, out)"
proof -
  let ?i = "rfind CHR ''#'' clsname"
  let ?suf = "drop (nat ?i + 1) clsname"
  from assms have i: "0 \<le> ?i"
    and v: "int_ok ?suf \<or> (?suf \<noteq> [] \<and> hd ?suf = PATHID_FILE \<and> int_ok (tl ?suf))"
    by (auto simp: spec_pathid_def SEPPATHID_def Let_def split: if_splits)
  from v have ne: "?suf \<noteq> []" using int_ok_nonempty by blast
  then have lt: "?i + 1 < int (length clsname)" using i by auto
  have hd: "clsname ! nat (?i + 1) = hd ?suf"
    using ne i by (simp add: hd_drop_conv_nth nat_add_distrib)
  show ?thesis
  proof (cases "hd ?suf = PATHID_FILE")
    case True
    with v int_ok_hd_not_f have "int_ok (tl ?suf)" by blast
    moreover have "tl ?suf = drop (nat (?i + 1 + 1)) clsname"
      using i by (simp add: drop_Suc nat_add_distrib tl_drop)
    ultimately obtain n where "py_int (drop (nat (?i + 1 + 1)) clsname) = Inr n"
      using py_int_cases by metis
    with True hd lt i show ?thesis by (simp add: pathid_filter_def Let_def)
  next
    case False
    with v have "int_ok ?suf" by blast
    moreover have "?suf = drop (nat (?i + 1)) clsname" using i by (simp add: nat_add_distrib)
    ultimately obtain n where "py_int (drop (nat (?i + 1)) clsname) = Inr n"
      using py_int_cases by metis
    with False hd lt i show ?thesis by (simp add: pathid_filter_def Let_def)
  qed
qed

lemma pathid_filter_empty_invalid:
  assumes "spec_pathid clsname = None"
  shows "\<exists>out'. pathid_filter [] clsname out = Inr (False, out')"
proof -
  let ?i = "rfind CHR ''#'' clsname"
  let ?suf = "drop (nat ?i + 1) clsname"
  show ?thesis
  proof (cases "?i \<noteq> - 1 \<and> ?i + 1 < int (length clsname)")
    case False
    then have "pathid_filter [] clsname out = Inr (False, out)"
      unfolding pathid_filter_def Let_def by (simp only: if_False if_True simp_thms)
    then show ?thesis by blast
  next
    case True
    then have i: "0 \<le> ?i" using rfind_lower[of "CHR ''#''" clsname] by linarith
    from True i have ne: "?suf \<noteq> []" by auto
    have hd: "clsname ! nat (?i + 1) = hd ?suf"
      using ne i by (simp add: hd_drop_conv_nth nat_add_distrib)
    from assms i have nv: "\<not> int_ok ?suf" "\<not> (hd ?suf = PATHID_FILE \<and> int_ok (tl ?suf))"
      using ne by (auto simp: spec_pathid_def SEPPATHID_def Let_def split: if_splits)
    let ?checked = "drop (nat ((if clsname ! nat (?i + 1) = PATHID_FILE then ?i + 1 else ?i) + 1)) clsname"
    have "\<not> int_ok ?checked"
    proof (cases "hd ?suf = PATHID_FILE")
      case True
      moreover have "tl ?suf = drop (nat (?i + 1 + 1)) clsname"
        using i by (simp add: drop_Suc nat_add_distrib tl_drop)
      ultimately show ?thesis using nv hd by simp
    next
      case False
      moreover have "?suf = drop (nat (?i + 1)) clsname" using i by (simp add: nat_add_distrib)
      ultimately show ?thesis using nv hd by simp
    qed
    then have e: "py_int ?checked = Inl (ValueError (int_errmsg ?checked))"
      using py_int_cases by metis
    obtain msg where "py_print WARN_PATHID [clsname, int_errmsg ?checked] out = Inr (out @ [msg])"
      using py_print_two[OF count_WARN_PATHID] by blast
    with True e show ?thesis by (simp add: pathid_filter_def Let_def bind_def)
  qed
qed

text \<open>
  C3.  When a path-id is requested, a clusters directory goes on exactly when its name
  ends with the requested path-id; for a requested path-id of the convention (the
  separator, then an integer or the file marker and an integer) that is exactly when the
  name decodes to the requested path-id, so that a directory with another path-id or
  with none is left out.  When no path-id is requested, a directory whose name carries a
  valid path-id is left out, and a directory whose text after the separator is not an
  integer is kept, to be processed as a name with no path-id.
\<close>

theorem C3_pathid_filter:
  "(pathid \<noteq> [] \<longrightarrow> pathid_filter pathid clsname out = Inr (\<not> endswith clsname pathid, out)) \<and>
   (pathid \<noteq> [] \<and> spec_pathid pathid = Some pathid \<longrightarrow>
      pathid_filter pathid clsname out = Inr (spec_pathid clsname \<noteq> Some pathid, out)) \<and>
   (spec_pathid clsname \<noteq> None \<longrightarrow> pathid_filter [] clsname out = Inr (True, out)) \<and>
   (spec_pathid clsname = None \<longrightarrow> (\<exists>out'. pathid_filter [] clsname out = Inr (False, out')))"
  using pathid_filter_nonempty pathid_filter_requested pathid_filter_empty_valid
    pathid_filter_empty_invalid by blast

theorem C3_pathid_filter_witness:
  "pathid_filter ''#2'' ''net.1#2'' [] = Inr (False, []) \<and>
   pathid_filter ''#2'' ''net.1#3'' [] = Inr (True, []) \<and>
   pathid_filter ''#2'' ''net.1'' [] = Inr (True, []) \<and>
   pathid_filter [] ''net.1#f3'' [] = Inr (True, []) \<and>
   (\<exists>out'. pathid_filter [] ''net#x'' [] = Inr (False, out'))"
proof -
  have p: "''#2'' \<noteq> [] \<and> spec_pathid ''#2'' = Some ''#2''" by code_simp
  have a: "spec_pathid ''net.1#2'' = Some ''#2''" by code_simp
  have b: "spec_pathid ''net.1#3'' \<noteq> Some ''#2''" by code_simp
  have c: "spec_pathid ''net.1'' \<noteq> Some ''#2''" by code_simp
  have d: "spec_pathid ''net.1#f3'' \<noteq> None" by code_simp
  have e: "spec_pathid ''net#x'' = None" by code_simp
  show ?thesis
    using p a b c d e
      C3_pathid_filter[of "''#2''" "''net.1#2''" "[]"]
      C3_pathid_filter[of "''#2''" "''net.1#3''" "[]"]
      C3_pathid_filter[of "''#2''" "''net.1''" "[]"]
      C3_pathid_filter[of "[]" "''net.1#f3''" "[]"]
      C3_pathid_filter[of "[]" "''net#x''" "[]"]
    by (simp add: endswith_def)
qed

section \<open>File system operations\<close>

lemma map_of_filter_key:
  "map_of (filter (\<lambda>(q, n). P q) fs) p = (if P p then map_of fs p else None)"
  by (induction fs) auto

lemma path_exists_iff: "path_exists fs p \<longleftrightarrow> p \<in> fst ` set fs"
  by (simp add: path_exists_def map_of_eq_None_iff)

lemma dirempty_iff: "dirempty fs p \<longleftrightarrow> (\<forall>q. under p q \<longrightarrow> \<not> path_exists fs q)"
  by (auto simp: dirempty_def list_ex_iff path_exists_iff) force

lemma under_longer: "under d p \<Longrightarrow> length d < length p"
  by (auto simp: under_def prefix_def)

lemma ancestors_shorter: "a \<in> set (ancestors p) \<Longrightarrow> length a < length p"
  by (auto simp: ancestors_def)

lemma ancestors_not_under: "a \<in> set (ancestors p) \<Longrightarrow> \<not> under p a"
  using under_longer ancestors_shorter by fastforce

lemma rmtree_lookup:
  assumes "rmtree fs p = Inr fs'"
  shows "map_of fs' q = (if q = p \<or> under p q then None else map_of fs q)"
proof -
  from assms have "fs' = filter (\<lambda>(q, n). q \<noteq> p \<and> \<not> under p q) fs"
    by (auto simp: rmtree_def split: if_splits)
  then show ?thesis by (simp add: map_of_filter_key)
qed

lemma os_remove_lookup:
  assumes "os_remove fs p = Inr fs'"
  shows "map_of fs' q = (if q = p then None else map_of fs q)"
proof -
  from assms have "fs' = filter (\<lambda>(q, n). q \<noteq> p) fs"
    by (auto simp: os_remove_def split: if_splits)
  then show ?thesis by (simp add: map_of_filter_key)
qed

lemma map_of_dirs:
  "map_of (map (\<lambda>a. (a, Dir)) xs) q = (if q \<in> set xs then Some Dir else None)"
  by (induction xs) auto

lemma makedirs_lookup:
  assumes "makedirs fs p = Inr fs'"
  shows "map_of fs' q =
           (case map_of fs q of
              Some n \<Rightarrow> Some n
            | None \<Rightarrow> if q = p \<or> q \<in> set (ancestors p) then Some Dir else None)"
proof -
  from assms have "fs' = fs @ map (\<lambda>a. (a, Dir)) (filter (\<lambda>a. \<not> path_exists fs a) (ancestors p) @ [p])"
    by (auto simp: makedirs_def split: if_splits)
  then show ?thesis
    by (auto simp: map_add_def map_of_dirs path_exists_def split: option.splits)
qed

lemma makedirs_new: "makedirs fs p = Inr fs' \<Longrightarrow> \<not> path_exists fs p"
  by (auto simp: makedirs_def split: if_splits)

lemma tidy_logsbase_True:
  assumes "tidy_logsbase True logsbase fs = Inr fs1"
    and "path_exists fs logsbase \<or> dirempty fs logsbase"
  shows "isdir fs1 logsbase \<and> dirempty fs1 logsbase"
proof -
  from assms(1) obtain fs0 where
    a: "(if path_exists fs logsbase then rmtree fs logsbase else Inr fs) = Inr fs0"
    and b: "makedirs fs0 logsbase = Inr fs1"
    by (auto simp: tidy_logsbase_def bind_def split: sum.splits)
  have e0: "dirempty fs0 logsbase"
  proof (cases "path_exists fs logsbase")
    case True
    with a have "rmtree fs logsbase = Inr fs0" by simp
    from rmtree_lookup[OF this] show ?thesis by (simp add: dirempty_iff path_exists_def)
  next
    case False
    with a assms(2) show ?thesis by simp
  qed
  from makedirs_new[OF b] have n: "map_of fs0 logsbase = None" by (simp add: path_exists_def)
  have "isdir fs1 logsbase" using makedirs_lookup[OF b, of logsbase] n by (simp add: isdir_def)
  moreover have "dirempty fs1 logsbase"
    unfolding dirempty_iff path_exists_def
  proof (intro allI impI)
    fix q assume u: "under logsbase q"
    with e0 have "map_of fs0 q = None" by (simp add: dirempty_iff path_exists_def)
    moreover from u have "q \<noteq> logsbase" "q \<notin> set (ancestors logsbase)"
      using under_longer ancestors_not_under by auto
    ultimately show "\<not> map_of fs1 q \<noteq> None" using makedirs_lookup[OF b, of q] by simp
  qed
  ultimately show ?thesis ..
qed

lemma tidy_taskoutp_True:
  assumes "tidy_taskoutp True taskoutp fs1 = Inr fs2"
  shows "\<not> path_exists fs2 taskoutp"
    and "isdir fs1 p \<and> dirempty fs1 p \<Longrightarrow> isdir fs2 p \<and> dirempty fs2 p"
proof -
  show "\<not> path_exists fs2 taskoutp"
  proof (cases "path_exists fs1 taskoutp")
    case True
    with assms have "os_remove fs1 taskoutp = Inr fs2" by (simp add: tidy_taskoutp_def)
    from os_remove_lookup[OF this] show ?thesis by (simp add: path_exists_def)
  next
    case False
    with assms show ?thesis by (simp add: tidy_taskoutp_def)
  qed
  show "isdir fs2 p \<and> dirempty fs2 p" if h: "isdir fs1 p \<and> dirempty fs1 p"
  proof (cases "path_exists fs1 taskoutp")
    case True
    with assms have r: "os_remove fs1 taskoutp = Inr fs2" by (simp add: tidy_taskoutp_def)
    then have "isfile fs1 taskoutp" by (auto simp: os_remove_def split: if_splits)
    with h have "taskoutp \<noteq> p" by (auto simp: isfile_def isdir_def)
    with h os_remove_lookup[OF r] show ?thesis by (simp add: isdir_def dirempty_iff path_exists_def)
  next
    case False
    with assms h show ?thesis by (simp add: tidy_taskoutp_def)
  qed
qed

lemma tidy_False_preserves:
  assumes "tidy_logsbase False logsbase fs = Inr fs1"
    and "tidy_taskoutp False taskoutp fs1 = Inr fs2"
  shows "path_exists fs p \<Longrightarrow> map_of fs2 p = map_of fs p"
    and "path_exists fs2 logsbase"
    and "path_exists fs2 p \<Longrightarrow> path_exists fs p \<or> p = logsbase \<or> p \<in> set (ancestors logsbase)"
proof -
  from assms(2) have eq: "fs2 = fs1" by (simp add: tidy_taskoutp_def)
  from assms(1) have c: "(path_exists fs logsbase \<and> fs1 = fs) \<or> (\<not> path_exists fs logsbase \<and> makedirs fs logsbase = Inr fs1)"
    by (auto simp: tidy_logsbase_def bind_def split: if_splits)
  show "map_of fs2 p = map_of fs p" if "path_exists fs p"
    using c that eq makedirs_lookup[of fs logsbase fs1 p]
    by (auto simp: path_exists_def)
  show "path_exists fs2 logsbase"
    using c eq makedirs_lookup[of fs logsbase fs1 logsbase]
    by (auto simp: path_exists_def split: option.splits)
  show "path_exists fs p \<or> p = logsbase \<or> p \<in> set (ancestors logsbase)" if "path_exists fs2 p"
    using c that eq makedirs_lookup[of fs logsbase fs1 p]
    by (auto simp: path_exists_def split: option.splits if_splits)
qed

lemma process_group_outputs:
  assumes "process_group env evalname algname measdir evalfile pathid tidy tsk rcpoutp clsbase clsname st jobs = Inr (st', jobs', c)"
  shows "\<exists>shuffle out1 fs1.
           shuffle_index clsname (length clsname - length pathid) (stdout st) = Inr (shuffle, out1) \<and>
           tidy_logsbase tidy (str_replace CLSDIR measdir clsbase) (files st) = Inr fs1 \<and>
           tidy_taskoutp tidy (task_output evalname pathid shuffle (str_replace CLSDIR measdir clsbase)) fs1 = Inr (files st')"
  using assms
  by (auto simp: process_group_def bind_def Let_def split: sum.splits prod.splits)

section \<open>The loop of evalGeneric\<close>

lemma py_print_three:
  "count_fields fmt = 3 \<Longrightarrow> \<exists>msg. py_format fmt [a, b, c] = Inr msg \<and> py_print fmt [a, b, c] out = Inr (out @ [msg])"
  using py_format_enough[of fmt "[a, b, c]"] by (auto simp: py_print_def)

lemma eval_group_not_dir:
  "\<not> isdir (files st) clsbase \<Longrightarrow>
   eval_group env evalname algname measdir evalfile pathid tidy tcapLen tsk rcpoutp clsbase (st, jobs, lastcls)
     = Inr (st, jobs, lastcls)"
  by (simp add: eval_group_def)

lemma for_each_no_directory:
  assumes "list_all (\<lambda>c. \<not> isdir (files st) c) cs"
  shows "for_each (eval_group env evalname algname measdir evalfile pathid tidy tcapLen tsk rcpoutp) cs
           (st, jobs, lastcls) = Inr (st, jobs, lastcls)"
  using assms by (induction cs) (simp_all add: eval_group_not_dir)


lemma eval_group_queue:
  assumes "eval_group env evalname algname measdir evalfile pathid tidy tcapLen tsk rcpoutp clsbase ls = Inr ls'"
  shows "queue (fst ls') = queue (fst ls) \<and> stderr (fst ls') = stderr (fst ls)"
  using assms
  by (cases ls)
     (auto simp: eval_group_def process_group_def bind_def Let_def
           split: if_splits sum.splits prod.splits)

lemma for_each_eval_group_queue:
  assumes "for_each (eval_group env evalname algname measdir evalfile pathid tidy tcapLen tsk rcpoutp) cs ls = Inr ls'"
  shows "queue (fst ls') = queue (fst ls) \<and> stderr (fst ls') = stderr (fst ls)"
  using assms
proof (induction cs arbitrary: ls)
  case Nil
  then show ?case by simp
next
  case (Cons c cs)
  then obtain ls1 where
    a: "eval_group env evalname algname measdir evalfile pathid tidy tcapLen tsk rcpoutp c ls = Inr ls1"
    and b: "for_each (eval_group env evalname algname measdir evalfile pathid tidy tcapLen tsk rcpoutp) cs ls1 = Inr ls'"
    by (auto split: sum.splits)
  from eval_group_queue[OF a] Cons.IH[OF b] show ?case by simp
qed

lemma evalGeneric_no_jobs_warns:
  assumes "basefile \<noteq> []" and "evalname \<noteq> []" and "algname \<noteq> []"
    and "pathid = [] \<or> hd pathid = SEPPATHID"
    and "taskcapt = fst (splitext (snd (path_split basefile)))"
    and "taskcapt \<noteq> []" and "snd (splitext taskcapt) = []"
    and "for_each
           (eval_group env evalname algname measdir evalfile pathid tidy (length taskcapt)
              \<lparr>tname = join ''_'' [evalname, taskcapt, pathid, algname], t_ondone = aggr,
               onjobdone = task_onjobdone env\<rparr>
              (concat [RESDIR, algname, ''/'', evalname, EXTEXECTIME]))
           (glob env (concat [RESDIR, algname, ''/'', CLSDIR, escapePathWildcards env taskcapt, ''*'']))
           (st, [], None) = Inr (st1, [], Some clsname)"
  shows "\<exists>msg. py_format WARN_NOCLUSTERS [algname, clsname] = Inr msg \<and>
           evalGeneric env evalname algname basefile measdir timeout evalfile aggr pathid tidy st
             = Inr (st1\<lparr>stderr := stderr st @ [msg]\<rparr>) \<and>
           queue st1 = queue st"
proof -
  obtain msg where m: "py_format WARN_NOCLUSTERS [algname, clsname] = Inr msg"
    and p: "py_print WARN_NOCLUSTERS [algname, clsname] (stderr st1) = Inr (stderr st1 @ [msg])"
    using py_print_two[OF count_WARN_NOCLUSTERS] by blast
  from for_each_eval_group_queue[OF assms(8)] have q: "queue st1 = queue st" "stderr st1 = stderr st"
    by simp_all
  from assms(1-7) assms(8) p q have
    "evalGeneric env evalname algname basefile measdir timeout evalfile aggr pathid tidy st
       = Inr (st1\<lparr>stderr := stderr st @ [msg]\<rparr>)"
    unfolding evalGeneric_def Let_def bind_def by simp
  with m q show ?thesis by blast
qed

subsection \<open>The instance filter\<close>

text \<open>
  C1.  As amended: a clusters directory that passed the path-id filter and whose name is
  longer than the caption of the base file is left out exactly when the character right
  after the caption is the instance separator; with any other character there (the
  caption \<open>net\<close> and the directory \<open>net2\<close>) the directory is processed as a group of the
  base file.
\<close>

theorem C1_instance_filter:
  assumes "isdir (files st) clsbase" and "clsname = snd (path_split clsbase)"
    and "pathid_filter pathid clsname (stdout st) = Inr (False, out1)"
    and "tcapLen < length clsname"
  shows "eval_group env evalname algname measdir evalfile pathid tidy tcapLen tsk rcpoutp clsbase
           (st, jobs, lastcls) =
         (if clsname ! tcapLen = SEPINST then Inr (st\<lparr>stdout := out1\<rparr>, jobs, Some clsname)
          else process_group env evalname algname measdir evalfile pathid tidy tsk rcpoutp clsbase
                 clsname (st\<lparr>stdout := out1\<rparr>) jobs)"
  using assms by (simp add: eval_group_def bind_def instance_filter_def Let_def)

theorem C1_instance_filter_witness:
  "eval_group ex_env ''mod'' ''alg'' MODDIR (modEvaluate ''nets/net.cnl'' 10) [] True 3 ex_task
     ''results/alg/mod.rcp'' ''results/alg/clusters/net^1'' (ex_state, [], None)
     = Inr (ex_state, [], Some ''net^1'') \<and>
   eval_group ex_env ''mod'' ''alg'' MODDIR (modEvaluate ''nets/net.cnl'' 10) [] True 3 ex_task
     ''results/alg/mod.rcp'' ''results/alg/clusters/net2'' (ex_state, [], None)
     = process_group ex_env ''mod'' ''alg'' MODDIR (modEvaluate ''nets/net.cnl'' 10) [] True ex_task
         ''results/alg/mod.rcp'' ''results/alg/clusters/net2'' ''net2'' ex_state []"
proof -
  have d1: "isdir (files ex_state) ''results/alg/clusters/net^1''" by code_simp
  have n1: "''net^1'' = snd (path_split ''results/alg/clusters/net^1'')" by code_simp
  have p1: "pathid_filter [] ''net^1'' (stdout ex_state) = Inr (False, [])" by code_simp
  have d2: "isdir (files ex_state) ''results/alg/clusters/net2''" by code_simp
  have n2: "''net2'' = snd (path_split ''results/alg/clusters/net2'')" by code_simp
  have p2: "pathid_filter [] ''net2'' (stdout ex_state) = Inr (False, [])" by code_simp
  have s: "ex_state\<lparr>stdout := []\<rparr> = ex_state" by (simp add: ex_state_def)
  show ?thesis
    using C1_instance_filter[OF d1 n1 p1, of 3] C1_instance_filter[OF d2 n2 p2, of 3] s
    by (simp add: SEPINST_def)
qed

text \<open>
  The claim as stated fails: for the base file \<open>nets/net.cnl\<close> the directory \<open>net2\<close> is
  not rejected, a job is built from its file and the pool takes it, while the directory
  of the instance \<open>net^1\<close> gives none.
\<close>

theorem C1_counterexample:
  "case_sum (\<lambda>e. []) (\<lambda>s. map jname (queue s))
     (evalGeneric ex_env ''mod'' ''alg'' ''nets/net.cnl'' MODDIR 10
        (modEvaluate ''nets/net.cnl'' 10) ModAggregate [] True ex_state)
   = [''mod_net2_alg'']"
  by code_simp

subsection \<open>Nothing to evaluate\<close>

text \<open>
  C2.  The claim does not hold when the loop meets no directory at all: the variable
  \<^verbatim>\<open>clsname\<close> of the warning is then unbound and the call raises instead of printing the
  warning.  (When a directory was met and no job was built, the warning is printed and
  nothing is submitted: \<open>evalGeneric_no_jobs_warns\<close>.)
\<close>

theorem C2_no_directory_raises:
  assumes "basefile \<noteq> []" and "evalname \<noteq> []" and "algname \<noteq> []"
    and "pathid = [] \<or> hd pathid = SEPPATHID"
    and "taskcapt = fst (splitext (snd (path_split basefile)))"
    and "taskcapt \<noteq> []" and "snd (splitext taskcapt) = []"
    and "list_all (\<lambda>c. \<not> isdir (files st) c)
           (glob env (concat [RESDIR, algname, ''/'', CLSDIR, escapePathWildcards env taskcapt, ''*'']))"
  shows "evalGeneric env evalname algname basefile measdir timeout evalfile aggr pathid tidy st
           = Inl UnboundLocalError"
proof -
  let ?tsk = "\<lparr>tname = join ''_'' [evalname, taskcapt, pathid, algname], t_ondone = aggr,
               onjobdone = task_onjobdone env\<rparr>"
  let ?rcp = "concat [RESDIR, algname, ''/'', evalname, EXTEXECTIME]"
  have "for_each (eval_group env evalname algname measdir evalfile pathid tidy (length taskcapt) ?tsk ?rcp)
          (glob env (concat [RESDIR, algname, ''/'', CLSDIR, escapePathWildcards env taskcapt, ''*'']))
          (st, [], None) = Inr (st, [], None)"
    using assms(8) by (rule for_each_no_directory)
  with assms(1-7) show ?thesis
    unfolding evalGeneric_def Let_def bind_def by simp
qed

theorem C2_no_directory_raises_witness:
  "evalGeneric (ex_env\<lparr>glob := (\<lambda>pat. [])\<rparr>) ''mod'' ''alg'' ''nets/net.cnl'' MODDIR 10
     (modEvaluate ''nets/net.cnl'' 10) ModAggregate [] True ex_state = Inl UnboundLocalError"
proof -
  have a: "fst (splitext (snd (path_split ''nets/net.cnl''))) = ''net''" by code_simp
  have b: "snd (splitext ''net'') = []" by code_simp
  show ?thesis
    by (rule C2_no_directory_raises[OF _ _ _ _ a[symmetric] _ b]) simp_all
qed

section \<open>Tidying the outputs of a group\<close>

lemma evalAlgorithm_dispatch:
  assumes "pathid = [] \<or> hd pathid = SEPPATHID"
  shows "\<exists>msg. evalAlgorithm env algname basefile meas timeout pathid st =
           (let st1 = st\<lparr>stdout := stdout st @ [msg]\<rparr>
            in if meas = ''mod'' then
                 evalGeneric env meas algname basefile MODDIR timeout
                   (modEvaluate basefile timeout) ModAggregate pathid True st1
               else if meas = ''nmi'' then
                 evalGeneric env meas algname basefile NMIDIR timeout
                   (nmiEvaluate basefile timeout) NmixAggregate pathid True st1
               else if meas = ''nmi_s'' then
                 evalGeneric env meas algname basefile NMIDIR timeout
                   (nmisEvaluate basefile timeout) NmixAggregate pathid False st1
               else Inl (ValueError (''Unexpected measure: '' @ meas)))"
proof -
  obtain msg where "py_print MSG_EVALUATING [meas, algname, basefile] (stdout st) = Inr (stdout st @ [msg])"
    using py_print_three[OF count_MSG_EVALUATING] by blast
  with assms have "evalAlgorithm env algname basefile meas timeout pathid st =
           (let st1 = st\<lparr>stdout := stdout st @ [msg]\<rparr>
            in if meas = ''mod'' then
                 evalGeneric env meas algname basefile MODDIR timeout
                   (modEvaluate basefile timeout) ModAggregate pathid True st1
               else if meas = ''nmi'' then
                 evalGeneric env meas algname basefile NMIDIR timeout
                   (nmiEvaluate basefile timeout) NmixAggregate pathid True st1
               else if meas = ''nmi_s'' then
                 evalGeneric env meas algname basefile NMIDIR timeout
                   (nmisEvaluate basefile timeout) NmixAggregate pathid False st1
               else Inl (ValueError (''Unexpected measure: '' @ meas)))"
    unfolding evalAlgorithm_def bind_def Let_def by simp
  then show ?thesis by (rule exI[where x = msg])
qed

lemma process_group_tidy_True:
  assumes "process_group env evalname algname measdir evalfile pathid True tsk rcpoutp clsbase clsname st jobs = Inr (st', jobs', c)"
    and "logsbase = str_replace CLSDIR measdir clsbase"
  shows "\<exists>shuffle out1.
           shuffle_index clsname (length clsname - length pathid) (stdout st) = Inr (shuffle, out1) \<and>
           (path_exists (files st) logsbase \<or> dirempty (files st) logsbase \<longrightarrow>
              isdir (files st') logsbase \<and> dirempty (files st') logsbase) \<and>
           \<not> path_exists (files st') (task_output evalname pathid shuffle logsbase)"
proof -
  from process_group_outputs[OF assms(1)] assms(2) obtain shuffle out1 fs1 where
    s: "shuffle_index clsname (length clsname - length pathid) (stdout st) = Inr (shuffle, out1)"
    and a: "tidy_logsbase True logsbase (files st) = Inr fs1"
    and b: "tidy_taskoutp True (task_output evalname pathid shuffle logsbase) fs1 = Inr (files st')"
    by blast
  from tidy_logsbase_True[OF a] tidy_taskoutp_True[OF b] s show ?thesis by blast
qed

lemma process_group_tidy_False:
  assumes "process_group env evalname algname measdir evalfile pathid False tsk rcpoutp clsbase clsname st jobs = Inr (st', jobs', c)"
    and "logsbase = str_replace CLSDIR measdir clsbase"
  shows "(\<forall>p. path_exists (files st) p \<longrightarrow> map_of (files st') p = map_of (files st) p) \<and>
         path_exists (files st') logsbase"
proof -
  from process_group_outputs[OF assms(1)] assms(2) obtain shuffle out1 fs1 where
    a: "tidy_logsbase False logsbase (files st) = Inr fs1"
    and b: "tidy_taskoutp False (task_output evalname pathid shuffle logsbase) fs1 = Inr (files st')"
    by blast
  from tidy_False_preserves[OF a b] show ?thesis by blast
qed


text \<open>
  C8.  For a group that is processed with \<open>tidy\<close> set, the directory of the logs of the
  measure is an empty directory afterwards (what it held before is removed) and the
  accumulation file does not exist any more, before any job of the group runs; with
  \<open>tidy\<close> unset, every path that existed keeps its content and the directory exists.
  \<^verbatim>\<open>evalAlgorithm\<close> passes \<open>tidy\<close> set for \<open>mod\<close> and \<open>nmi\<close> and unset for \<open>nmi_s\<close>.
\<close>

theorem C8_tidy:
  assumes "logsbase = str_replace CLSDIR measdir clsbase"
  shows
  "(process_group env evalname algname measdir evalfile pathid True tsk rcpoutp clsbase clsname st jobs
      = Inr (st', jobs', c) \<longrightarrow>
      (\<exists>shuffle out1.
         shuffle_index clsname (length clsname - length pathid) (stdout st) = Inr (shuffle, out1) \<and>
         (path_exists (files st) logsbase \<or> dirempty (files st) logsbase \<longrightarrow>
            isdir (files st') logsbase \<and> dirempty (files st') logsbase) \<and>
         \<not> path_exists (files st') (task_output evalname pathid shuffle logsbase))) \<and>
   (process_group env evalname algname measdir evalfile pathid False tsk rcpoutp clsbase clsname st jobs
      = Inr (st', jobs', c) \<longrightarrow>
      (\<forall>p. path_exists (files st) p \<longrightarrow> map_of (files st') p = map_of (files st) p) \<and>
      path_exists (files st') logsbase) \<and>
   (pathid = [] \<or> hd pathid = SEPPATHID \<longrightarrow>
      (\<exists>msg. evalAlgorithm env algname basefile ''mod'' timeout pathid st0 =
         evalGeneric env ''mod'' algname basefile MODDIR timeout
           (modEvaluate basefile timeout) ModAggregate pathid True (st0\<lparr>stdout := stdout st0 @ [msg]\<rparr>)) \<and>
      (\<exists>msg. evalAlgorithm env algname basefile ''nmi'' timeout pathid st0 =
         evalGeneric env ''nmi'' algname basefile NMIDIR timeout
           (nmiEvaluate basefile timeout) NmixAggregate pathid True (st0\<lparr>stdout := stdout st0 @ [msg]\<rparr>)) \<and>
      (\<exists>msg. evalAlgorithm env algname basefile ''nmi_s'' timeout pathid st0 =
         evalGeneric env ''nmi_s'' algname basefile NMIDIR timeout
           (nmisEvaluate basefile timeout) NmixAggregate pathid False (st0\<lparr>stdout := stdout st0 @ [msg]\<rparr>)))"
proof (intro conjI impI)
  assume "process_group env evalname algname measdir evalfile pathid True tsk rcpoutp clsbase clsname st jobs
      = Inr (st', jobs', c)"
  from process_group_tidy_True[OF this assms]
  show "\<exists>shuffle out1.
         shuffle_index clsname (length clsname - length pathid) (stdout st) = Inr (shuffle, out1) \<and>
         (path_exists (files st) logsbase \<or> dirempty (files st) logsbase \<longrightarrow>
            isdir (files st') logsbase \<and> dirempty (files st') logsbase) \<and>
         \<not> path_exists (files st') (task_output evalname pathid shuffle logsbase)" .
next
  assume r: "process_group env evalname algname measdir evalfile pathid False tsk rcpoutp clsbase clsname st jobs
      = Inr (st', jobs', c)"
  from process_group_tidy_False[OF r assms]
  show "\<forall>p. path_exists (files st) p \<longrightarrow> map_of (files st') p = map_of (files st) p" by blast
  from process_group_tidy_False[OF r assms]
  show "path_exists (files st') logsbase" by blast
next
  assume p: "pathid = [] \<or> hd pathid = SEPPATHID"
  from evalAlgorithm_dispatch[OF p, of env algname basefile "''mod''" timeout st0]
  show "\<exists>msg. evalAlgorithm env algname basefile ''mod'' timeout pathid st0 =
         evalGeneric env ''mod'' algname basefile MODDIR timeout
           (modEvaluate basefile timeout) ModAggregate pathid True (st0\<lparr>stdout := stdout st0 @ [msg]\<rparr>)"
    by (simp add: Let_def)
  from evalAlgorithm_dispatch[OF p, of env algname basefile "''nmi''" timeout st0]
  show "\<exists>msg. evalAlgorithm env algname basefile ''nmi'' timeout pathid st0 =
         evalGeneric env ''nmi'' algname basefile NMIDIR timeout
           (nmiEvaluate basefile timeout) NmixAggregate pathid True (st0\<lparr>stdout := stdout st0 @ [msg]\<rparr>)"
    by (simp add: Let_def)
  from evalAlgorithm_dispatch[OF p, of env algname basefile "''nmi_s''" timeout st0]
  show "\<exists>msg. evalAlgorithm env algname basefile ''nmi_s'' timeout pathid st0 =
         evalGeneric env ''nmi_s'' algname basefile NMIDIR timeout
           (nmisEvaluate basefile timeout) NmixAggregate pathid False (st0\<lparr>stdout := stdout st0 @ [msg]\<rparr>)"
    by (simp add: Let_def)
qed

theorem C8_tidy_witness:
  "(case process_group ex_env ''mod'' ''alg'' MODDIR (modEvaluate ''nets/net.cnl'' 10) [] True ex_task
           ''results/alg/mod.rcp'' ''results/alg/clusters/net2'' ''net2'' ex_state [] of
      Inl e \<Rightarrow> False
    | Inr (st', jobs', c) \<Rightarrow>
        isdir (files st') ''results/alg/mod/net2'' \<and> dirempty (files st') ''results/alg/mod/net2'' \<and>
        \<not> path_exists (files st') ''results/alg/mod/net2.mod'') \<and>
   (case process_group ex_env ''mod'' ''alg'' MODDIR (modEvaluate ''nets/net.cnl'' 10) [] False ex_task
           ''results/alg/mod.rcp'' ''results/alg/clusters/net2'' ''net2'' ex_state [] of
      Inl e \<Rightarrow> False
    | Inr (st', jobs', c) \<Rightarrow>
        map_of (files st') ''results/alg/mod/net2/net2_1.err'' = Some (File ''old'') \<and>
        map_of (files st') ''results/alg/mod/net2.mod'' = Some (File ''old'')) \<and>
   (\<exists>msg. evalAlgorithm ex_env ''alg'' ''nets/net.cnl'' ''nmi_s'' 10 [] ex_state =
      evalGeneric ex_env ''nmi_s'' ''alg'' ''nets/net.cnl'' NMIDIR 10
        (nmisEvaluate ''nets/net.cnl'' 10) NmixAggregate [] False
        (ex_state\<lparr>stdout := stdout ex_state @ [msg]\<rparr>))"
proof -
  let ?run = "\<lambda>tidy. process_group ex_env ''mod'' ''alg'' MODDIR (modEvaluate ''nets/net.cnl'' 10) [] tidy
                ex_task ''results/alg/mod.rcp'' ''results/alg/clusters/net2'' ''net2'' ex_state []"
  have l: "''results/alg/mod/net2'' = str_replace CLSDIR MODDIR ''results/alg/clusters/net2''"
    by code_simp
  have "\<not> isl (?run True)" by code_simp
  then obtain st1 j1 c1 where r1: "?run True = Inr (st1, j1, c1)"
    by (cases "?run True") auto
  have "\<not> isl (?run False)" by code_simp
  then obtain st2 j2 c2 where r2: "?run False = Inr (st2, j2, c2)"
    by (cases "?run False") auto
  have sh: "shuffle_index ''net2'' (length ''net2'' - length ([]::string)) (stdout ex_state) = Inr ([], [])"
    by code_simp
  have t: "task_output ''mod'' [] [] ''results/alg/mod/net2'' = ''results/alg/mod/net2.mod''"
    by code_simp
  have e: "path_exists (files ex_state) ''results/alg/mod/net2''"
    "path_exists (files ex_state) ''results/alg/mod/net2/net2_1.err''"
    "path_exists (files ex_state) ''results/alg/mod/net2.mod''"
    "map_of (files ex_state) ''results/alg/mod/net2/net2_1.err'' = Some (File ''old'')"
    "map_of (files ex_state) ''results/alg/mod/net2.mod'' = Some (File ''old'')"
    by code_simp+
  note w = C8_tidy[OF l, where env = ex_env and evalname = "''mod''" and algname = "''alg''"
      and evalfile = "modEvaluate ''nets/net.cnl'' 10" and pathid = "[]" and tsk = ex_task
      and rcpoutp = "''results/alg/mod.rcp''" and clsname = "''net2''" and st = ex_state
      and jobs = "[]" and basefile = "''nets/net.cnl''" and timeout = 10 and ?st0.0 = ex_state]
  from w[where st' = st1 and jobs' = j1 and c = c1] r1 sh t e(1)
  have a: "isdir (files st1) ''results/alg/mod/net2'' \<and> dirempty (files st1) ''results/alg/mod/net2'' \<and>
        \<not> path_exists (files st1) ''results/alg/mod/net2.mod''"
    by auto
  from w[where st' = st2 and jobs' = j2 and c = c2] r2 e
  have b: "map_of (files st2) ''results/alg/mod/net2/net2_1.err'' = Some (File ''old'') \<and>
        map_of (files st2) ''results/alg/mod/net2.mod'' = Some (File ''old'')"
    by auto
  from w[where st' = st1 and jobs' = j1 and c = c1]
  have c: "\<exists>msg. evalAlgorithm ex_env ''alg'' ''nets/net.cnl'' ''nmi_s'' 10 [] ex_state =
      evalGeneric ex_env ''nmi_s'' ''alg'' ''nets/net.cnl'' NMIDIR 10
        (nmisEvaluate ''nets/net.cnl'' 10) NmixAggregate [] False
        (ex_state\<lparr>stdout := stdout ex_state @ [msg]\<rparr>)"
    by blast
  from a b c r1 r2 show ?thesis by simp
qed

section \<open>The completion callback of a modularity job\<close>

lemma err_modformat_text:
  \<open>py_format ERR_MODFORMAT [a, b] =
     Inr (''ERROR, job "'' @ a @ ''" has invalid output format. Moularity value is not found in:\<newline>'' @ b)\<close>
  by (simp add: ERR_MODFORMAT_def)

lemma append_to_Cons:
  "append_to ((q, n) # fs) p s =
     (if q = p then (q, case n of File c \<Rightarrow> File (c @ s) | Dir \<Rightarrow> Dir) else (q, n)) # append_to fs p s"
  by (simp add: append_to_def)

lemma map_of_append_to:
  "map_of (append_to fs p s) q =
     map_option (\<lambda>n. if q = p then (case n of File c \<Rightarrow> File (c @ s) | Dir \<Rightarrow> Dir) else n) (map_of fs q)"
proof (induction fs)
  case Nil
  show ?case by (simp add: append_to_def)
next
  case (Cons a fs)
  obtain q' n where a: "a = (q', n)" by (cases a)
  show ?case unfolding a append_to_Cons using Cons.IH by simp
qed

lemma file_content_append_to:
  "file_content (append_to fs p s) q = (if q = p \<and> isfile fs p then file_content fs p @ s else file_content fs q)"
proof (cases "map_of fs q")
  case None
  then show ?thesis by (auto simp: file_content_def isfile_def map_of_append_to)
next
  case (Some n)
  then show ?thesis by (cases n) (auto simp: file_content_def isfile_def map_of_append_to)
qed

lemma isfile_append_to: "isfile (append_to fs p s) q = isfile fs q"
proof (cases "map_of fs q")
  case None
  then show ?thesis by (simp add: isfile_def map_of_append_to)
next
  case (Some n)
  then show ?thesis by (cases n) (simp_all add: isfile_def map_of_append_to)
qed

lemma getsize_content: "getsize fs p = length (file_content fs p)"
  by (simp add: getsize_def file_content_def split: option.splits node.splits)

lemma open_append_result:
  assumes "open_append fs p = Inr fs1"
  shows "isfile fs1 p \<and> file_content fs1 p = file_content fs p \<and>
         (isfile fs p \<or> (\<not> path_exists fs p \<and> (fst (path_split p) = [] \<or> isdir fs (fst (path_split p)))))"
proof (cases "map_of fs p")
  case None
  with assms have "fs1 = fs @ [(p, File [])]"
    and "fst (path_split p) = [] \<or> isdir fs (fst (path_split p))"
    by (auto simp: open_append_def Let_def split: if_splits)
  with None show ?thesis
    by (simp add: isfile_def file_content_def path_exists_def map_add_def)
next
  case (Some n)
  with assms show ?thesis
    by (cases n) (simp_all add: open_append_def isfile_def)
qed

lemma open_append_ok:
  assumes "isfile fs p \<or> (\<not> path_exists fs p \<and> (fst (path_split p) = [] \<or> isdir fs (fst (path_split p))))"
  shows "\<exists>fs1. open_append fs p = Inr fs1"
proof (cases "map_of fs p")
  case None
  with assms show ?thesis by (auto simp: open_append_def isfile_def Let_def)
next
  case (Some n)
  with assms show ?thesis by (cases n) (simp_all add: open_append_def isfile_def path_exists_def)
qed

lemma aggLevs_no_row:
  assumes "recorded_row env j result = None"
  shows "\<exists>msg. py_format ERR_MODFORMAT [jname j, result] = Inr msg \<and>
           aggLevs env j result st = (st\<lparr>stderr := stderr st @ [msg]\<rparr>, Returned)"
proof -
  from assms have n: "(if startswith result targpref then parseFloat env (drop (length targpref) result) else None) = None"
    by (auto simp: recorded_row_def split: if_splits)
  obtain msg where m: "py_format ERR_MODFORMAT [jname j, result] = Inr msg"
    and p: "py_print ERR_MODFORMAT [jname j, result] (stderr st) = Inr (stderr st @ [msg])"
    using py_print_two[OF count_ERR_MODFORMAT] by blast
  have "aggLevs env j result st = (st\<lparr>stderr := stderr st @ [msg]\<rparr>, Returned)"
    unfolding aggLevs_def n using p by simp
  with m show ?thesis by blast
qed

lemma aggLevs_row:
  assumes "recorded_row env j result = Some row"
    and "open_append (files st) (p_taskoutp j) = Inr fs1"
  shows "files (fst (aggLevs env j result st)) =
           append_to (if getsize fs1 (p_taskoutp j) = 0 then append_to fs1 (p_taskoutp j) MOD_HEADER else fs1)
             (p_taskoutp j) row"
    and "snd (aggLevs env j result st) =
           (if (case jtask j of None \<Rightarrow> False | Some t \<Rightarrow> onjobdone t)
            then Onjobdone (the (parseFloat env (drop (length targpref) result)))
            else Raised IndexError)"
proof -
  from assms(1) obtain v where
    v: "(if startswith result targpref then parseFloat env (drop (length targpref) result) else None) = Some v"
    and pv: "parseFloat env (drop (length targpref) result) = Some v"
    and row: "row = v @ [CHR 0x09] @ p_jobsuff j @ [CHR 0x0A]"
    by (auto simp: recorded_row_def split: if_splits)
  have f: "py_format ROW_FORMAT [v, p_jobsuff j] = Inr row" by (simp add: row_format row)
  have w: "py_print WARN_ONJOBDONE [jname j, result] s = Inl IndexError" for s
    using py_format_short[of "[jname j, result]" WARN_ONJOBDONE]
    by (simp add: py_print_def count_WARN_ONJOBDONE)
  show "files (fst (aggLevs env j result st)) =
           append_to (if getsize fs1 (p_taskoutp j) = 0 then append_to fs1 (p_taskoutp j) MOD_HEADER else fs1)
             (p_taskoutp j) row"
    unfolding aggLevs_def v using assms(2) f w by (simp add: Let_def)
  show "snd (aggLevs env j result st) =
           (if (case jtask j of None \<Rightarrow> False | Some t \<Rightarrow> onjobdone t)
            then Onjobdone (the (parseFloat env (drop (length targpref) result)))
            else Raised IndexError)"
    unfolding aggLevs_def v using assms(2) f w pv by (simp add: Let_def)
qed

lemma aggLevs_row_content:
  assumes "recorded_row env j result = Some row"
    and "open_append (files st) (p_taskoutp j) = Inr fs1"
  shows "file_content (files (fst (aggLevs env j result st))) (p_taskoutp j) =
           file_content fs1 (p_taskoutp j) @ (if getsize fs1 (p_taskoutp j) = 0 then MOD_HEADER else []) @ row"
    and "isfile (files (fst (aggLevs env j result st))) (p_taskoutp j)"
proof -
  from open_append_result[OF assms(2)] have i: "isfile fs1 (p_taskoutp j)" by simp
  show "file_content (files (fst (aggLevs env j result st))) (p_taskoutp j) =
           file_content fs1 (p_taskoutp j) @ (if getsize fs1 (p_taskoutp j) = 0 then MOD_HEADER else []) @ row"
    unfolding aggLevs_row(1)[OF assms] using i
    by (simp add: file_content_append_to isfile_append_to)
  show "isfile (files (fst (aggLevs env j result st))) (p_taskoutp j)"
    unfolding aggLevs_row(1)[OF assms] using i by (simp add: isfile_append_to)
qed

lemma recorded_row_nonempty: "recorded_row env j result = Some row \<Longrightarrow> row \<noteq> []"
  by (auto simp: recorded_row_def split: if_splits)

lemma aggLevs_step:
  assumes "openable (files st) (p_taskoutp j)"
  shows "openable (files (fst (aggLevs env j result st))) (p_taskoutp j) \<and>
         file_content (files (fst (aggLevs env j result st))) (p_taskoutp j) =
           (case recorded_row env j result of
              None \<Rightarrow> file_content (files st) (p_taskoutp j)
            | Some row \<Rightarrow>
                file_content (files st) (p_taskoutp j) @
                (if file_content (files st) (p_taskoutp j) = [] then MOD_HEADER else []) @ row)"
proof (cases "recorded_row env j result")
  case None
  from aggLevs_no_row[OF None, of st] have "files (fst (aggLevs env j result st)) = files st"
    by auto
  with None assms show ?thesis by simp
next
  case (Some row)
  from assms obtain fs1 where o: "open_append (files st) (p_taskoutp j) = Inr fs1"
    using open_append_ok unfolding openable_def by blast
  from open_append_result[OF o] have c: "file_content fs1 (p_taskoutp j) = file_content (files st) (p_taskoutp j)"
    by simp
  from aggLevs_row_content[OF Some o] c Some show ?thesis
    by (simp add: openable_def getsize_content)
qed

lemma run_callbacks_content:
  assumes "list_all (\<lambda>(j, r). p_taskoutp j = p) jrs" and "openable (files st) p"
  shows "openable (files (run_callbacks env jrs st)) p \<and>
         file_content (files (run_callbacks env jrs st)) p =
           (let c = file_content (files st) p;
                rows = concat (map (\<lambda>(j, r). case recorded_row env j r of None \<Rightarrow> [] | Some row \<Rightarrow> row) jrs)
            in c @ (if c = [] \<and> rows \<noteq> [] then MOD_HEADER else []) @ rows)"
  using assms
proof (induction jrs arbitrary: st)
  case Nil
  then show ?case by (simp add: run_callbacks_def)
next
  case (Cons a jrs)
  obtain j r where a: "a = (j, r)" by (cases a)
  let ?st1 = "fst (aggLevs env j r st)"
  from Cons.prems a have p: "p_taskoutp j = p" and rest: "list_all (\<lambda>(j, r). p_taskoutp j = p) jrs"
    by simp_all
  have o: "openable (files st) (p_taskoutp j)" using Cons.prems(2) p by simp
  note s = aggLevs_step[OF o, of env r, unfolded p]
  from s have o1: "openable (files ?st1) p" by (rule conjunct1)
  from s have c1: "file_content (files ?st1) p =
           (case recorded_row env j r of
              None \<Rightarrow> file_content (files st) p
            | Some row \<Rightarrow>
                file_content (files st) p @
                (if file_content (files st) p = [] then MOD_HEADER else []) @ row)"
    by (rule conjunct2)
  have run: "run_callbacks env (a # jrs) st = run_callbacks env jrs ?st1"
    by (simp add: run_callbacks_def a)
  note ih = Cons.IH[OF rest o1]
  show ?case
  proof (cases "recorded_row env j r")
    case None
    with ih c1 show ?thesis unfolding run by (simp add: a Let_def)
  next
    case (Some row)
    with recorded_row_nonempty have "row \<noteq> []" by blast
    with ih c1 Some show ?thesis unfolding run by (simp add: a Let_def)
  qed
qed

lemma aggLevs_open_fails:
  assumes "recorded_row env j result = Some row"
    and "open_append (files st) (p_taskoutp j) = Inl e"
  shows "aggLevs env j result st = (st, Raised e)"
proof -
  from assms(1) obtain v where
    v: "(if startswith result targpref then parseFloat env (drop (length targpref) result) else None) = Some v"
    by (auto simp: recorded_row_def split: if_splits)
  show ?thesis unfolding aggLevs_def v using assms(2) by (simp add: Let_def)
qed

text \<open>
  C7.  When the captured output of a modularity job does not start with \<^verbatim>\<open>mod: \<close>, the
  callback prints one error with the name of the job and the output on stderr and
  returns; the file system is what it was, so the accumulation file is neither created
  nor changed.
\<close>

theorem C7_nonconforming_output:
  assumes "\<not> startswith result targpref"
  shows \<open>aggLevs env j result st =
           (st\<lparr>stderr := stderr st @
              [''ERROR, job "'' @ jname j @
               ''" has invalid output format. Moularity value is not found in:\<newline>'' @ result]\<rparr>,
            Returned) \<and>
         files (fst (aggLevs env j result st)) = files st\<close>
proof -
  from assms have "recorded_row env j result = None" by (simp add: recorded_row_def)
  from aggLevs_no_row[OF this, of st] err_modformat_text[of "jname j" result]
  show ?thesis by auto
qed

theorem C7_nonconforming_output_witness:
  \<open>\<not> startswith ''Q = 0.5'' targpref \<and>
   aggLevs ex_env ex_job1 ''Q = 0.5'' ex_state =
     (ex_state\<lparr>stderr :=
        [''ERROR, job "mod_net.1_alg" has invalid output format. Moularity value is not found in:\<newline>Q = 0.5'']\<rparr>,
      Returned) \<and>
   \<not> path_exists (files (fst (aggLevs ex_env ex_job1 ''Q = 0.5'' ex_state))) ''results/alg/mod/net.mod''\<close>
proof -
  have n: "\<not> startswith ''Q = 0.5'' targpref" by code_simp
  have j: "jname ex_job1 = ''mod_net.1_alg''" by (simp add: ex_job1_def modEvaluate_def)
  have e: "stderr ex_state = []" by (simp add: ex_state_def)
  have p: "\<not> path_exists (files ex_state) ''results/alg/mod/net.mod''" by code_simp
  from C7_nonconforming_output[OF n, of ex_env ex_job1 ex_state] n j e p
  show ?thesis by simp
qed

text \<open>
  C10.  When the output of a modularity job yields a row and the task of the job has no
  truthy \<^verbatim>\<open>onjobdone\<close>, the callback raises.  When the accumulation file could be opened,
  the row is in the file by then and the exception is the IndexError of the fallback
  warning, whose text has three replacement fields for the two arguments it is given.
\<close>

theorem C10_fallback_warning_raises:
  assumes "recorded_row env j result = Some row"
    and "\<not> (case jtask j of None \<Rightarrow> False | Some t \<Rightarrow> onjobdone t)"
  shows "(\<exists>e. snd (aggLevs env j result st) = Raised e) \<and>
         (\<forall>fs1. open_append (files st) (p_taskoutp j) = Inr fs1 \<longrightarrow>
            snd (aggLevs env j result st) = Raised IndexError \<and>
            file_content (files (fst (aggLevs env j result st))) (p_taskoutp j) =
              file_content fs1 (p_taskoutp j) @
              (if getsize fs1 (p_taskoutp j) = 0 then MOD_HEADER else []) @ row) \<and>
         count_fields WARN_ONJOBDONE = 3 \<and>
         py_format WARN_ONJOBDONE [jname j, result] = Inl IndexError"
proof (intro conjI allI impI)
  show "\<exists>e. snd (aggLevs env j result st) = Raised e"
  proof (cases "open_append (files st) (p_taskoutp j)")
    case (Inl e)
    from aggLevs_open_fails[OF assms(1) Inl] show ?thesis by simp
  next
    case (Inr fs1)
    from aggLevs_row(2)[OF assms(1) Inr] assms(2) show ?thesis by simp
  qed
next
  fix fs1 assume o: "open_append (files st) (p_taskoutp j) = Inr fs1"
  from aggLevs_row(2)[OF assms(1) o] assms(2)
  show "snd (aggLevs env j result st) = Raised IndexError" by simp
  from aggLevs_row_content(1)[OF assms(1) o]
  show "file_content (files (fst (aggLevs env j result st))) (p_taskoutp j) =
              file_content fs1 (p_taskoutp j) @
              (if getsize fs1 (p_taskoutp j) = 0 then MOD_HEADER else []) @ row" .
next
  show "count_fields WARN_ONJOBDONE = 3" by (rule count_WARN_ONJOBDONE)
next
  show "py_format WARN_ONJOBDONE [jname j, result] = Inl IndexError"
    by (rule py_format_short) (simp add: count_WARN_ONJOBDONE)
qed

theorem C10_fallback_warning_raises_witness:
  "snd (aggLevs ex_env ex_job1 ''mod: 0.5'' ex_state) = Raised IndexError \<and>
   file_content (files (fst (aggLevs ex_env ex_job1 ''mod: 0.5'' ex_state))) ''results/alg/mod/net.mod'' =
     MOD_HEADER @ ''0.5'' @ [CHR 0x09] @ ''1_3'' @ [CHR 0x0A]"
proof -
  have r: "recorded_row ex_env ex_job1 ''mod: 0.5'' = Some (''0.5'' @ [CHR 0x09] @ ''1_3'' @ [CHR 0x0A])"
    by code_simp
  have t: "\<not> (case jtask ex_job1 of None \<Rightarrow> False | Some t \<Rightarrow> onjobdone t)" by code_simp
  have p: "p_taskoutp ex_job1 = ''results/alg/mod/net.mod''" by (simp add: ex_job1_def modEvaluate_def)
  have o: "open_append (files ex_state) ''results/alg/mod/net.mod'' =
             Inr (files ex_state @ [(''results/alg/mod/net.mod'', File [])])"
    by code_simp
  have c: "file_content (files ex_state @ [(''results/alg/mod/net.mod'', File [])]) ''results/alg/mod/net.mod'' = []"
    by code_simp
  have g: "getsize (files ex_state @ [(''results/alg/mod/net.mod'', File [])]) ''results/alg/mod/net.mod'' = 0"
    by code_simp
  from C10_fallback_warning_raises[OF r t, of ex_state] o c g p show ?thesis by simp
qed

text \<open>
  C6.  A callback that records a row writes the header before it exactly when the
  accumulation file has size zero once opened, then the row.  When callbacks that write
  to one file run one after the other on a file that was missing or empty, the file
  afterwards is the header followed by the rows, in the order of the callbacks; on a
  file that held something, it is what the file held followed by the rows, with no
  header written.
\<close>

theorem C6_header_once:
  "(recorded_row env j result = Some row \<and> open_append (files st) (p_taskoutp j) = Inr fs1 \<longrightarrow>
      file_content (files (fst (aggLevs env j result st))) (p_taskoutp j) =
        file_content fs1 (p_taskoutp j) @
        (if getsize fs1 (p_taskoutp j) = 0 then MOD_HEADER else []) @ row) \<and>
   (list_all (\<lambda>(j, r). p_taskoutp j = p) jrs \<and> openable (files st) p \<longrightarrow>
      file_content (files (run_callbacks env jrs st)) p =
        (let c = file_content (files st) p;
             rows = concat (map (\<lambda>(j, r). case recorded_row env j r of None \<Rightarrow> [] | Some row \<Rightarrow> row) jrs)
         in c @ (if c = [] \<and> rows \<noteq> [] then MOD_HEADER else []) @ rows))"
  using aggLevs_row_content(1) run_callbacks_content by blast

theorem C6_header_once_witness:
  "file_content
     (files (run_callbacks ex_env [(ex_job1, ''mod: 0.5''), (ex_job2, ''mod: 0.5'')] ex_state))
     ''results/alg/mod/net.mod'' =
   MOD_HEADER @ ''0.5'' @ [CHR 0x09] @ ''1_3'' @ [CHR 0x0A] @ ''0.5'' @ [CHR 0x09] @ ''2_3'' @ [CHR 0x0A]"
proof -
  let ?jrs = "[(ex_job1, ''mod: 0.5''), (ex_job2, ''mod: 0.5'')]"
  have a: "list_all (\<lambda>(j, r). p_taskoutp j = ''results/alg/mod/net.mod'') ?jrs" by code_simp
  have o: "openable (files ex_state) ''results/alg/mod/net.mod''" by code_simp
  have v: "(let c = file_content (files ex_state) ''results/alg/mod/net.mod'';
             rows = concat (map (\<lambda>(j, r). case recorded_row ex_env j r of None \<Rightarrow> [] | Some row \<Rightarrow> row) ?jrs)
         in c @ (if c = [] \<and> rows \<noteq> [] then MOD_HEADER else []) @ rows) =
     MOD_HEADER @ ''0.5'' @ [CHR 0x09] @ ''1_3'' @ [CHR 0x0A] @ ''0.5'' @ [CHR 0x09] @ ''2_3'' @ [CHR 0x0A]"
    by code_simp
  from C6_header_once[where p = "''results/alg/mod/net.mod''" and jrs = ?jrs and st = ex_state and env = ex_env]
    a o v show ?thesis by simp
qed

end
